theory Spec2Isabelle
  imports Complex_Main
begin

section \<open>Data model\<close>

text \<open>
  The server (\<^verbatim>\<open>server.ts\<close>) is a set of Express route handlers over a Prisma client.
  The database is modelled as a record of tables, every handler as a function from the
  database before the request to the database after it and the HTTP response. Every
  exception of the source (a JavaScript \<^verbatim>\<open>TypeError\<close>, an error raised by a Prisma call)
  is a value of type \<open>error\<close>.

  Identifiers are the strings the routes receive (\<^verbatim>\<open>req.params.id\<close>, \<^verbatim>\<open>item.id\<close>). The
  value a column default generates (a new row's id, \<^verbatim>\<open>date\<close>) is an argument of the
  handler: the database engine supplies it, and an insert whose key is already taken
  fails, as a primary key does.
\<close>

type_synonym ident = string

datatype error =
    TypeError
  | ValidationError
  | UniqueViolation
  | ForeignKeyViolation
  | RecordNotFound
  | OutOfRange

text \<open>
  The whole-number columns (\<^verbatim>\<open>stock\<close>, \<^verbatim>\<open>sold\<close>, a line item's \<^verbatim>\<open>quantity\<close>) are
  32-bit signed integers: a value outside the range is refused with an error, never
  wrapped around. A \<^verbatim>\<open>Float\<close> column holds a number or \<^verbatim>\<open>NaN\<close>.
\<close>

definition int32 :: "int \<Rightarrow> bool" where
  "int32 v = (- 2147483648 \<le> v \<and> v \<le> 2147483647)"

datatype price = Price rat | NaN

record user =
  u_id :: ident
  u_name :: string
  u_email :: string
  u_password :: string
  u_cpf :: string
  u_phone :: string
  u_birthdate :: string
  u_role :: string

record shop =
  s_id :: ident
  s_userId :: ident
  s_name :: string
  s_description :: string
  s_image :: string

record address =
  a_id :: ident
  a_userId :: ident
  a_zipCode :: string
  a_street :: string
  a_number :: string
  a_complement :: string
  a_neighborhood :: string
  a_city :: string
  a_state :: string
  a_isPrimary :: bool

text \<open>
  A product row; its primary key is the key of the \<open>products\<close> table below. \<open>p_stock\<close>
  and \<open>p_sold\<close> may be negative; every write of them is checked against \<open>int32\<close>.
\<close>

record product =
  p_name :: string
  p_description :: string
  p_price :: price
  p_stock :: int
  p_sold :: int
  p_category :: string
  p_image :: string
  p_images :: "string list"
  p_variations :: "string list"
  p_shopId :: ident

record order_item =
  oi_productId :: ident
  oi_name :: string
  oi_quantity :: int
  oi_price :: rat
  oi_image :: string

text \<open>The scalar columns of an order, and the order together with the line items it owns.\<close>

record order_row =
  o_id :: ident
  o_customerId :: ident
  o_total :: rat
  o_paymentMethod :: string
  o_addressId :: ident
  o_status :: string
  o_date :: nat

record order =
  o_row :: order_row
  o_items :: "order_item list"

record db =
  users :: "user list"
  shops :: "shop list"
  addresses :: "address list"
  products :: "ident \<rightharpoonup> product"
  orders :: "order list"

text \<open>
  The Prisma schema is not among the sources, so which relations of an order are
  enforced as foreign keys is a parameter of the model: the results below hold for
  every choice.
\<close>

record schema =
  fk_customer :: bool
  fk_address :: bool
  fk_product :: bool

section \<open>Requests and responses\<close>

text \<open>
  The body of \<^verbatim>\<open>POST /orders\<close>:
  \<^verbatim>\<open>{ customerId, total, paymentMethod, addressId, items: [{ id, name, quantity, price, image }] }\<close>.
  \<open>items = None\<close> is a body without \<^verbatim>\<open>items\<close>.
\<close>

record item =
  i_id :: ident
  i_name :: string
  i_quantity :: int
  i_price :: rat
  i_image :: string

record order_request =
  customerId :: ident
  total :: rat
  paymentMethod :: string
  addressId :: ident
  items :: "item list option"

text \<open>
  What \<^verbatim>\<open>order.create\<close> returns: the scalar columns, and the line items only when the
  call asks for them with \<^verbatim>\<open>include: { items: true }\<close>.
\<close>

record order_result =
  r_row :: order_row
  r_items :: "order_item list option"

datatype body =
    ErrorJson string
  | OrderJson order_result
  | AddressJson address
  | UserJson user "shop option"
  | ProductJson product
  | NoBody

record response =
  status :: nat
  body :: body

section \<open>The Prisma calls of the checkout\<close>

text \<open>
  \<^verbatim>\<open>items.map((item) => ({ productId: item.id, name: item.name, quantity: item.quantity,
  price: item.price, image: item.image }))\<close>
\<close>

definition line_item :: "item \<Rightarrow> order_item" where
  "line_item it =
     \<lparr>oi_productId = i_id it, oi_name = i_name it, oi_quantity = i_quantity it,
      oi_price = i_price it, oi_image = i_image it\<rparr>"

text \<open>
  \<^verbatim>\<open>order.create({ data: { ..., items: { create: [...] } } })\<close>: one insert of the order
  and of its line items, refused when a quantity does not fit its column, when the
  generated key is taken or when an enforced relation points at no row.
\<close>

definition order_create ::
  "schema \<Rightarrow> db \<Rightarrow> order_row \<Rightarrow> order_item list \<Rightarrow> bool \<Rightarrow> error + db \<times> order_result" where
  "order_create sch d row its incl =
     (if \<exists>x \<in> set its. \<not> int32 (oi_quantity x) then Inl OutOfRange
      else if o_id row \<in> set (map (\<lambda>x. o_id (o_row x)) (orders d)) then Inl UniqueViolation
      else if fk_customer sch \<and> o_customerId row \<notin> set (map u_id (users d))
        then Inl ForeignKeyViolation
      else if fk_address sch \<and> o_addressId row \<notin> set (map a_id (addresses d))
        then Inl ForeignKeyViolation
      else if fk_product sch \<and> (\<exists>x \<in> set its. products d (oi_productId x) = None)
        then Inl ForeignKeyViolation
      else Inr (d\<lparr>orders := orders d @ [\<lparr>o_row = row, o_items = its\<rparr>]\<rparr>,
                \<lparr>r_row = row, r_items = (if incl then Some its else None)\<rparr>))"

text \<open>
  \<^verbatim>\<open>product.update({ where: { id }, data: { stock: { decrement: q }, sold: { increment: q } } })\<close>
  raises when no product has the id, and when \<open>q\<close>, the new stock or the new sold
  counter does not fit 32 bits.
\<close>

definition product_update_stock ::
  "(ident \<rightharpoonup> product) \<Rightarrow> ident \<Rightarrow> int \<Rightarrow> error + (ident \<rightharpoonup> product)" where
  "product_update_stock ps i q =
     (case ps i of
        None \<Rightarrow> Inl RecordNotFound
      | Some p \<Rightarrow>
          if int32 q \<and> int32 (p_stock p - q) \<and> int32 (p_sold p + q)
          then Inr (ps(i \<mapsto> p\<lparr>p_stock := p_stock p - q, p_sold := p_sold p + q\<rparr>))
          else Inl OutOfRange)"

text \<open>\<^verbatim>\<open>for (const item of items) { await tx.product.update(...) }\<close>\<close>

fun decrement_stock :: "(ident \<rightharpoonup> product) \<Rightarrow> item list \<Rightarrow> error + (ident \<rightharpoonup> product)" where
  "decrement_stock ps [] = Inr ps"
| "decrement_stock ps (it # its) =
     (case product_update_stock ps (i_id it) (i_quantity it) of
        Inl e \<Rightarrow> Inl e
      | Inr ps' \<Rightarrow> decrement_stock ps' its)"

text \<open>
  \<^verbatim>\<open>prisma.$transaction(async (tx) => ...)\<close>: the callback's writes are kept when it
  returns and dropped when it throws; the error is thrown again to the caller.
\<close>

definition transaction :: "(db \<Rightarrow> error + db \<times> 'a) \<Rightarrow> db \<Rightarrow> db \<times> (error + 'a)" where
  "transaction f d =
     (case f d of
        Inl e \<Rightarrow> (d, Inl e)
      | Inr (d', r) \<Rightarrow> (d', Inr r))"

section \<open>POST /orders, the transactional checkout\<close>

definition new_order_row :: "ident \<Rightarrow> nat \<Rightarrow> order_request \<Rightarrow> order_row" where
  "new_order_row oid now rq =
     \<lparr>o_id = oid, o_customerId = customerId rq, o_total = total rq,
      o_paymentMethod = paymentMethod rq, o_addressId = addressId rq,
      o_status = ''A Enviar'', o_date = now\<rparr>"

text \<open>
  The callback of the transaction: \<^verbatim>\<open>items.map\<close> on a missing \<^verbatim>\<open>items\<close> is a
  \<^verbatim>\<open>TypeError\<close>; the order is created without \<^verbatim>\<open>include\<close>; then the loop over the items.
\<close>

definition checkout_tx ::
  "schema \<Rightarrow> ident \<Rightarrow> nat \<Rightarrow> order_request \<Rightarrow> db \<Rightarrow> error + db \<times> order_result" where
  "checkout_tx sch oid now rq tx =
     (case items rq of
        None \<Rightarrow> Inl TypeError
      | Some its \<Rightarrow>
          (case order_create sch tx (new_order_row oid now rq) (map line_item its) False of
             Inl e \<Rightarrow> Inl e
           | Inr (tx1, ord) \<Rightarrow>
               (case decrement_stock (products tx1) its of
                  Inl e \<Rightarrow> Inl e
                | Inr ps \<Rightarrow> Inr (tx1\<lparr>products := ps\<rparr>, ord))))"

definition place_order ::
  "schema \<Rightarrow> ident \<Rightarrow> nat \<Rightarrow> db \<Rightarrow> order_request \<Rightarrow> db \<times> response" where
  "place_order sch oid now d rq =
     (case transaction (checkout_tx sch oid now rq) d of
        (d', Inr result) \<Rightarrow> (d', \<lparr>status = 201, body = OrderJson result\<rparr>)
      | (d', Inl e) \<Rightarrow>
          (d', \<lparr>status = 500,
                body = ErrorJson ''Erro ao processar pagamento ou falta de estoque.''\<rparr>))"

section \<open>POST /orders, the first (mobile checkout) version\<close>

text \<open>
  \<^verbatim>\<open>prisma.order.create({ data: {...}, include: { items: true } })\<close> inside a
  \<^verbatim>\<open>try\<close>, and nothing else: no product is read or written. The nested create is
  one statement of the client, applied whole or not at all.
\<close>

definition place_order_mobile ::
  "schema \<Rightarrow> ident \<Rightarrow> nat \<Rightarrow> db \<Rightarrow> order_request \<Rightarrow> db \<times> response" where
  "place_order_mobile sch oid now d rq =
     (case items rq of
        None \<Rightarrow> (d, \<lparr>status = 500, body = ErrorJson ''Erro ao fechar pedido''\<rparr>)
      | Some its \<Rightarrow>
          (case order_create sch d (new_order_row oid now rq) (map line_item its) True of
             Inl e \<Rightarrow> (d, \<lparr>status = 500, body = ErrorJson ''Erro ao fechar pedido''\<rparr>)
           | Inr (d', ord) \<Rightarrow> (d', \<lparr>status = 201, body = OrderJson ord\<rparr>)))"

section \<open>Later writes: PUT /products/:id and PATCH /orders/:id/status\<close>

text \<open>
  The body of \<^verbatim>\<open>PUT /products/:id\<close>. \<open>pu_price\<close> and \<open>pu_stock\<close> are what
  \<^verbatim>\<open>parseFloat(price)\<close> and \<^verbatim>\<open>parseInt(stock)\<close> read, \<open>None\<close> for \<^verbatim>\<open>NaN\<close>. A price that
  is \<^verbatim>\<open>NaN\<close> is stored as it is; a stock that is \<^verbatim>\<open>NaN\<close> or does not fit 32 bits is
  refused. \<open>pu_images = None\<close> is a body without \<^verbatim>\<open>images\<close>, where \<^verbatim>\<open>images.length\<close>
  throws. A text field that is absent leaves its column as it is.
\<close>

record product_request =
  pu_name :: "string option"
  pu_description :: "string option"
  pu_price :: "rat option"
  pu_stock :: "int option"
  pu_category :: "string option"
  pu_variations :: "string list option"
  pu_images :: "string list option"

definition or_keep :: "'a option \<Rightarrow> 'a \<Rightarrow> 'a" where
  "or_keep v old = (case v of None \<Rightarrow> old | Some x \<Rightarrow> x)"

definition put_product :: "db \<Rightarrow> ident \<Rightarrow> product_request \<Rightarrow> db \<times> response" where
  "put_product d pid rq =
     (let failure = (d, \<lparr>status = 500,
            body = ErrorJson ''Erro ao atualizar o produto no banco de dados.''\<rparr>)
      in case pu_images rq of
           None \<Rightarrow> failure
         | Some imgs \<Rightarrow>
             (case (pu_stock rq, products d pid) of
                (Some st, Some p) \<Rightarrow>
                  if int32 st then
                    (let p' = p\<lparr>p_name := or_keep (pu_name rq) (p_name p),
                                p_description := or_keep (pu_description rq) (p_description p),
                                p_price := (case pu_price rq of
                                              None \<Rightarrow> NaN | Some pr \<Rightarrow> Price pr),
                                p_stock := st,
                                p_category := or_keep (pu_category rq) (p_category p),
                                p_images := imgs,
                                p_image := (if length imgs > 0 then hd imgs
                                            else ''https://placehold.co/400''),
                                p_variations := (case pu_variations rq of
                                                   None \<Rightarrow> [] | Some vs \<Rightarrow> vs)\<rparr>
                     in (d\<lparr>products := (products d)(pid \<mapsto> p')\<rparr>,
                         \<lparr>status = 200, body = ProductJson p'\<rparr>))
                  else failure
              | _ \<Rightarrow> failure))"

text \<open>
  \<^verbatim>\<open>prisma.order.update({ where: { id }, data: { status } })\<close>: any status from any
  status; an absent \<^verbatim>\<open>status\<close> changes nothing; no order with the id is an error.
\<close>

definition set_status :: "string option \<Rightarrow> order \<Rightarrow> order" where
  "set_status st x = x\<lparr>o_row := (o_row x)\<lparr>o_status := or_keep st (o_status (o_row x))\<rparr>\<rparr>"

definition patch_order_status :: "db \<Rightarrow> ident \<Rightarrow> string option \<Rightarrow> db \<times> response" where
  "patch_order_status d oid st =
     (case find (\<lambda>x. o_id (o_row x) = oid) (orders d) of
        None \<Rightarrow> (d, \<lparr>status = 500, body = ErrorJson ''Erro ao atualizar status do pedido''\<rparr>)
      | Some x \<Rightarrow>
          (d\<lparr>orders := map (\<lambda>y. if o_id (o_row y) = oid then set_status st y else y) (orders d)\<rparr>,
           \<lparr>status = 200,
            body = OrderJson \<lparr>r_row = o_row (set_status st x), r_items = None\<rparr>\<rparr>))"

text \<open>The writes that can follow a checkout, and a run of them.\<close>

datatype later_write =
    PutProduct ident product_request
  | PatchStatus ident "string option"
  | PlaceOrder ident nat order_request
  | PlaceOrderMobile ident nat order_request

fun apply_write :: "schema \<Rightarrow> db \<Rightarrow> later_write \<Rightarrow> db" where
  "apply_write sch d (PutProduct pid rq) = fst (put_product d pid rq)"
| "apply_write sch d (PatchStatus oid st) = fst (patch_order_status d oid st)"
| "apply_write sch d (PlaceOrder oid now rq) = fst (place_order sch oid now d rq)"
| "apply_write sch d (PlaceOrderMobile oid now rq) = fst (place_order_mobile sch oid now d rq)"

definition apply_writes :: "schema \<Rightarrow> db \<Rightarrow> later_write list \<Rightarrow> db" where
  "apply_writes sch d ws = foldl (apply_write sch) d ws"

section \<open>POST /addresses and PUT /addresses/:id\<close>

text \<open>
  \<^verbatim>\<open>req.body.isPrimary\<close> is any JSON value: absent, a boolean, or something else, of
  which only its truthiness matters to \<^verbatim>\<open>if (isPrimary)\<close> and \<^verbatim>\<open>!!isPrimary\<close>.
\<close>

datatype flag = Absent | JBool bool | JOther bool

fun truthy :: "flag \<Rightarrow> bool" where
  "truthy Absent = False"
| "truthy (JBool b) = b"
| "truthy (JOther t) = t"

text \<open>
  The body of both routes. \<open>ar_userId = None\<close> is a body without \<^verbatim>\<open>userId\<close>; the
  text columns are taken as present.
\<close>

record address_request =
  ar_userId :: "ident option"
  ar_zipCode :: string
  ar_street :: string
  ar_number :: string
  ar_complement :: string
  ar_neighborhood :: string
  ar_city :: string
  ar_state :: string
  ar_isPrimary :: flag

text \<open>
  \<^verbatim>\<open>address.updateMany({ where: { userId }, data: { isPrimary: false } })\<close>. A filter
  whose value is \<^verbatim>\<open>undefined\<close> is no filter: every row matches.
\<close>

definition clear_primary :: "ident option \<Rightarrow> address list \<Rightarrow> address list" where
  "clear_primary uid rows =
     map (\<lambda>a. if (case uid of None \<Rightarrow> True | Some u \<Rightarrow> a_userId a = u)
               then a\<lparr>a_isPrimary := False\<rparr> else a) rows"

text \<open>
  \<^verbatim>\<open>address.create({ data: { userId, ..., isPrimary: !!isPrimary } })\<close>: the owner is
  required and must be a user (the relation \<^verbatim>\<open>addresses\<close> of a user), the generated key
  must be free.
\<close>

definition address_create :: "db \<Rightarrow> ident \<Rightarrow> address_request \<Rightarrow> error + db \<times> address" where
  "address_create d aid rq =
     (case ar_userId rq of
        None \<Rightarrow> Inl ValidationError
      | Some u \<Rightarrow>
          if aid \<in> set (map a_id (addresses d)) then Inl UniqueViolation
          else if u \<notin> set (map u_id (users d)) then Inl ForeignKeyViolation
          else
            (let a = \<lparr>a_id = aid, a_userId = u, a_zipCode = ar_zipCode rq,
                      a_street = ar_street rq, a_number = ar_number rq,
                      a_complement = ar_complement rq,
                      a_neighborhood = ar_neighborhood rq, a_city = ar_city rq,
                      a_state = ar_state rq, a_isPrimary = truthy (ar_isPrimary rq)\<rparr>
             in Inr (d\<lparr>addresses := addresses d @ [a]\<rparr>, a)))"

definition address_error :: "string \<Rightarrow> response" where
  "address_error verb =
     \<lparr>status = 500,
      body = ErrorJson (''Erro ao '' @ verb @ '' endere'' @ [CHR 0xC3, CHR 0xA7] @ ''o.'')\<rparr>"

text \<open>
  The two calls are not in a transaction: when the create fails, the rows already
  cleared stay cleared.
\<close>

definition post_addresses :: "ident \<Rightarrow> db \<Rightarrow> address_request \<Rightarrow> db \<times> response" where
  "post_addresses aid d rq =
     (let d1 = (if truthy (ar_isPrimary rq)
                then d\<lparr>addresses := clear_primary (ar_userId rq) (addresses d)\<rparr>
                else d)
      in case address_create d1 aid rq of
           Inl e \<Rightarrow> (d1, address_error ''cadastrar'')
         | Inr (d2, a) \<Rightarrow> (d2, \<lparr>status = 201, body = AddressJson a\<rparr>))"

text \<open>
  \<^verbatim>\<open>address.update({ where: { id }, data: { zipCode, ..., isPrimary } })\<close>: \<^verbatim>\<open>isPrimary\<close>
  goes to the client as it came, so an absent one leaves the column alone and one that
  is not a boolean is refused; \<^verbatim>\<open>userId\<close> is not among the data, the owner stays.
\<close>

definition apply_address_update :: "address_request \<Rightarrow> address \<Rightarrow> address" where
  "apply_address_update rq a =
     a\<lparr>a_zipCode := ar_zipCode rq, a_street := ar_street rq, a_number := ar_number rq,
       a_complement := ar_complement rq, a_neighborhood := ar_neighborhood rq,
       a_city := ar_city rq, a_state := ar_state rq,
       a_isPrimary := (case ar_isPrimary rq of JBool b \<Rightarrow> b | _ \<Rightarrow> a_isPrimary a)\<rparr>"

definition address_update :: "db \<Rightarrow> ident \<Rightarrow> address_request \<Rightarrow> error + db \<times> address" where
  "address_update d aid rq =
     (case ar_isPrimary rq of
        JOther t \<Rightarrow> Inl ValidationError
      | _ \<Rightarrow>
          (case find (\<lambda>a. a_id a = aid) (addresses d) of
             None \<Rightarrow> Inl RecordNotFound
           | Some a \<Rightarrow>
               Inr (d\<lparr>addresses :=
                        map (\<lambda>x. if a_id x = aid then apply_address_update rq x else x)
                          (addresses d)\<rparr>,
                    apply_address_update rq a)))"

definition put_addresses :: "db \<Rightarrow> ident \<Rightarrow> address_request \<Rightarrow> db \<times> response" where
  "put_addresses d aid rq =
     (let d1 = (if truthy (ar_isPrimary rq)
                then d\<lparr>addresses := clear_primary (ar_userId rq) (addresses d)\<rparr>
                else d)
      in case address_update d1 aid rq of
           Inl e \<Rightarrow> (d1, address_error ''atualizar'')
         | Inr (d2, a) \<Rightarrow> (d2, \<lparr>status = 200, body = AddressJson a\<rparr>))"

section \<open>POST /auth/register\<close>

record user_data =
  ud_name :: "string option"
  ud_email :: string
  ud_password :: string
  ud_cpf :: string
  ud_phone :: string
  ud_birthdate :: string
  ud_role :: "string option"

record address_data =
  ad_cep :: string
  ad_street :: string
  ad_number :: string
  ad_complement :: string
  ad_neighborhood :: string
  ad_city :: string
  ad_state :: string

record shop_data =
  sd_name :: string
  sd_description :: string
  sd_image :: "string option"

record register_request =
  userData :: "user_data option"
  addressData :: "address_data option"
  shopData :: "shop_data option"

text \<open>\<^verbatim>\<open>x || fallback\<close> on a string that may be absent: absent and empty are falsy.\<close>

definition or_default :: "string option \<Rightarrow> string \<Rightarrow> string" where
  "or_default v fallback =
     (case v of None \<Rightarrow> fallback | Some x \<Rightarrow> if x = [] then fallback else x)"

text \<open>
  \<^verbatim>\<open>user.create\<close> with the nested creates of one address, \<^verbatim>\<open>isPrimary: true\<close>, and of a
  shop when \<^verbatim>\<open>shopData\<close> is there: one statement, applied whole or not at all.
  \<^verbatim>\<open>addressData.cep\<close> on a missing \<^verbatim>\<open>addressData\<close> throws before the call. The email is
  unique (the handler's message says so), as are the generated keys.
\<close>

definition user_create ::
  "db \<Rightarrow> ident \<Rightarrow> ident \<Rightarrow> ident \<Rightarrow> user_data \<Rightarrow> address_data option \<Rightarrow> shop_data option
     \<Rightarrow> error + db \<times> user \<times> shop option" where
  "user_create d uid aid sid ud ad sd =
     (case ad of
        None \<Rightarrow> Inl TypeError
      | Some a \<Rightarrow>
          if uid \<in> set (map u_id (users d)) \<or> ud_email ud \<in> set (map u_email (users d)) \<or>
             aid \<in> set (map a_id (addresses d)) \<or>
             (sd \<noteq> None \<and> sid \<in> set (map s_id (shops d)))
          then Inl UniqueViolation
          else
            (let u = \<lparr>u_id = uid, u_name = or_default (ud_name ud) [], u_email = ud_email ud,
                      u_password = ud_password ud, u_cpf = ud_cpf ud, u_phone = ud_phone ud,
                      u_birthdate = ud_birthdate ud,
                      u_role = or_default (ud_role ud) ''SELLER''\<rparr>;
                 adr = \<lparr>a_id = aid, a_userId = uid, a_zipCode = ad_cep a,
                        a_street = ad_street a, a_number = ad_number a,
                        a_complement = ad_complement a,
                        a_neighborhood = ad_neighborhood a, a_city = ad_city a,
                        a_state = ad_state a, a_isPrimary = True\<rparr>;
                 sh = map_option
                        (\<lambda>s. \<lparr>s_id = sid, s_userId = uid, s_name = sd_name s,
                               s_description = sd_description s,
                               s_image = or_default (sd_image s) ''https://placehold.co/400''\<rparr>)
                        sd
             in Inr (d\<lparr>users := users d @ [u],
                       addresses := addresses d @ [adr],
                       shops := shops d @ (case sh of None \<Rightarrow> [] | Some s \<Rightarrow> [s])\<rparr>,
                     u, sh)))"

definition missing_user_data :: response where
  "missing_user_data =
     \<lparr>status = 400,
      body = ErrorJson (''Dados do usu'' @ [CHR 0xC3, CHR 0xA1] @ ''rio (nome, email) s'' @
               [CHR 0xC3, CHR 0xA3] @ ''o obrigat'' @ [CHR 0xC3, CHR 0xB3] @ ''rios.'')\<rparr>"

definition register_failed :: response where
  "register_failed =
     \<lparr>status = 400,
      body = ErrorJson (''Erro ao criar utilizador. Verifique se o email j'' @
               [CHR 0xC3, CHR 0xA1] @ '' existe.'')\<rparr>"

definition register ::
  "ident \<Rightarrow> ident \<Rightarrow> ident \<Rightarrow> db \<Rightarrow> register_request \<Rightarrow> db \<times> response" where
  "register uid aid sid d rq =
     (case userData rq of
        None \<Rightarrow> (d, missing_user_data)
      | Some ud \<Rightarrow>
          if or_default (ud_name ud) [] = [] then (d, missing_user_data)
          else
            (case user_create d uid aid sid ud (addressData rq) (shopData rq) of
               Inl e \<Rightarrow> (d, register_failed)
             | Inr (d', u, sh) \<Rightarrow> (d', \<lparr>status = 201, body = UserJson u sh\<rparr>)))"

section \<open>Quantities used to state the results\<close>

text \<open>The primary addresses of a user, and the invariant: nobody has two.\<close>

definition primary_of :: "ident \<Rightarrow> address list \<Rightarrow> address list" where
  "primary_of u rows = filter (\<lambda>a. a_userId a = u \<and> a_isPrimary a) rows"

definition one_primary :: "address list \<Rightarrow> bool" where
  "one_primary rows = (\<forall>u \<in> set (map a_userId rows). length (primary_of u rows) \<le> 1)"

text \<open>Every address belongs to a user, and no two addresses share a key.\<close>

definition addresses_wf :: "db \<Rightarrow> bool" where
  "addresses_wf d =
     (distinct (map a_id (addresses d)) \<and>
      (\<forall>a \<in> set (addresses d). a_userId a \<in> set (map u_id (users d))))"

text \<open>The total quantity the line items of a request order of one product.\<close>

definition ordered_qty :: "item list \<Rightarrow> ident \<Rightarrow> int" where
  "ordered_qty its pid = sum_list (map i_quantity (filter (\<lambda>it. i_id it = pid) its))"

text \<open>
  The counters fit while a run of the stock loop goes through \<open>its\<close>: after every
  prefix of the line items, the stock and sold of each product named are within
  32 bits.
\<close>

definition counters_fit :: "(ident \<rightharpoonup> product) \<Rightarrow> item list \<Rightarrow> bool" where
  "counters_fit ps its =
     (\<forall>k \<in> {..length its}. \<forall>it \<in> set its.
        case ps (i_id it) of
          None \<Rightarrow> True
        | Some p \<Rightarrow>
            int32 (p_stock p - ordered_qty (take k its) (i_id it)) \<and>
            int32 (p_sold p + ordered_qty (take k its) (i_id it)))"

text \<open>A product after \<open>q\<close> units of it are sold.\<close>

definition sell :: "int \<Rightarrow> product \<Rightarrow> product" where
  "sell q p = p\<lparr>p_stock := p_stock p - q, p_sold := p_sold p + q\<rparr>"

text \<open>The line items the orders with a given id hold.\<close>

definition items_of_order :: "db \<Rightarrow> ident \<Rightarrow> order_item list list" where
  "items_of_order d oid = map o_items (filter (\<lambda>x. o_id (o_row x) = oid) (orders d))"

definition order_ids :: "db \<Rightarrow> ident list" where
  "order_ids d = map (\<lambda>x. o_id (o_row x)) (orders d)"

section \<open>Example data\<close>

definition user1 :: user where
  "user1 = \<lparr>u_id = ''u1'', u_name = ''Ana'', u_email = ''ana@example.com'', u_password = ''pw'',
     u_cpf = ''1'', u_phone = ''2'', u_birthdate = ''2000-01-01'', u_role = ''BUYER''\<rparr>"

definition address1 :: address where
  "address1 = \<lparr>a_id = ''a1'', a_userId = ''u1'', a_zipCode = ''40000'', a_street = ''Rua A'',
     a_number = ''1'', a_complement = ''apt'', a_neighborhood = ''Centro'',
     a_city = ''Salvador'', a_state = ''BA'', a_isPrimary = True\<rparr>"

definition product_x :: product where
  "product_x = \<lparr>p_name = ''A'', p_description = ''d'', p_price = Price 10, p_stock = 5, p_sold = 0,
     p_category = ''c'', p_image = ''u'', p_images = [''u''], p_variations = [],
     p_shopId = ''s1''\<rparr>"

text \<open>One buyer with one address, and product \<open>X\<close> with 5 units in stock.\<close>

definition db0 :: db where
  "db0 = \<lparr>users = [user1], shops = [], addresses = [address1],
     products = [''X'' \<mapsto> product_x], orders = []\<rparr>"

definition all_fks :: schema where
  "all_fks = \<lparr>fk_customer = True, fk_address = True, fk_product = True\<rparr>"

definition no_fks :: schema where
  "no_fks = \<lparr>fk_customer = False, fk_address = False, fk_product = False\<rparr>"

definition item_of :: "ident \<Rightarrow> int \<Rightarrow> item" where
  "item_of pid q = \<lparr>i_id = pid, i_name = ''A'', i_quantity = q, i_price = 10, i_image = ''u''\<rparr>"

definition checkout :: "item list option \<Rightarrow> order_request" where
  "checkout its = \<lparr>customerId = ''u1'', total = 30, paymentMethod = ''card'',
     addressId = ''a1'', items = its\<rparr>"

text \<open>A line item whose snapshot differs from the product row, and a later catalog edit.\<close>

definition old_item :: item where
  "old_item = \<lparr>i_id = ''X'', i_name = ''Old name'', i_quantity = 1, i_price = 8, i_image = ''old''\<rparr>"

definition new_listing :: product_request where
  "new_listing = \<lparr>pu_name = Some ''New name'', pu_description = None, pu_price = Some 99,
     pu_stock = Some 40, pu_category = None, pu_variations = None,
     pu_images = Some [''new'']\<rparr>"

text \<open>Two users; the first has two addresses, one of them primary, the second has one.\<close>

definition user2 :: user where
  "user2 = \<lparr>u_id = ''u2'', u_name = ''Rui'', u_email = ''rui@example.com'', u_password = ''pw'',
     u_cpf = ''3'', u_phone = ''4'', u_birthdate = ''1990-01-01'', u_role = ''SELLER''\<rparr>"

definition db1 :: db where
  "db1 = \<lparr>users = [user1, user2], shops = [],
     addresses = [address1,
                  address1\<lparr>a_id := ''a2'', a_street := ''Rua B'', a_isPrimary := False\<rparr>,
                  address1\<lparr>a_id := ''a3'', a_userId := ''u2''\<rparr>],
     products = Map.empty, orders = []\<rparr>"

definition address_body :: "ident \<Rightarrow> flag \<Rightarrow> address_request" where
  "address_body u f = \<lparr>ar_userId = Some u, ar_zipCode = ''41000'', ar_street = ''Rua C'',
     ar_number = ''9'', ar_complement = ''x'', ar_neighborhood = ''Barra'',
     ar_city = ''Salvador'', ar_state = ''BA'', ar_isPrimary = f\<rparr>"

definition register_body :: register_request where
  "register_body =
     \<lparr>userData = Some \<lparr>ud_name = Some ''Bia'', ud_email = ''bia@example.com'',
          ud_password = ''pw'', ud_cpf = ''5'', ud_phone = ''6'',
          ud_birthdate = ''1995-05-05'', ud_role = None\<rparr>,
      addressData = Some \<lparr>ad_cep = ''42000'', ad_street = ''Rua D'', ad_number = ''3'',
          ad_complement = ''y'', ad_neighborhood = ''Pituba'', ad_city = ''Salvador'',
          ad_state = ''BA''\<rparr>,
      shopData = None\<rparr>"

definition primary_flags :: "db \<Rightarrow> (ident \<times> ident \<times> bool) list" where
  "primary_flags d = map (\<lambda>a. (a_id a, a_userId a, a_isPrimary a)) (addresses d)"

section \<open>Facts about the stock loop\<close>

lemma product_update_stock_dom:
  "product_update_stock ps i q = Inr ps' \<Longrightarrow> dom ps' = dom ps"
  by (auto simp: product_update_stock_def split: option.splits if_splits)

lemma decrement_stock_dom:
  "decrement_stock ps its = Inr ps' \<Longrightarrow> dom ps' = dom ps"
proof (induction its arbitrary: ps)
  case Nil
  then show ?case by simp
next
  case (Cons it its)
  show ?case
  proof (cases "product_update_stock ps (i_id it) (i_quantity it)")
    case (Inl e)
    with Cons.prems show ?thesis by simp
  next
    case (Inr ps1)
    with Cons.prems have "decrement_stock ps1 its = Inr ps'" by simp
    then have "dom ps' = dom ps1" by (rule Cons.IH)
    with Inr show ?thesis by (simp add: product_update_stock_dom)
  qed
qed

lemma decrement_stock_missing:
  "\<exists>it \<in> set its. ps (i_id it) = None \<Longrightarrow> \<exists>e. decrement_stock ps its = Inl e"
proof (induction its arbitrary: ps)
  case Nil
  then show ?case by simp
next
  case (Cons it its)
  show ?case
  proof (cases "product_update_stock ps (i_id it) (i_quantity it)")
    case (Inl e)
    then show ?thesis by simp
  next
    case (Inr ps')
    then have d: "dom ps' = dom ps" by (rule product_update_stock_dom)
    from Inr have "ps (i_id it) \<noteq> None"
      by (auto simp: product_update_stock_def split: option.splits)
    with Cons.prems have "\<exists>x \<in> set its. ps (i_id x) = None" by auto
    then have "\<exists>x \<in> set its. ps' (i_id x) = None"
      using d by (metis domIff)
    then have "\<exists>e. decrement_stock ps' its = Inl e" by (rule Cons.IH)
    with Inr show ?thesis by simp
  qed
qed

lemma checkout_tx_missing:
  assumes "items rq = Some its" and "\<exists>it \<in> set its. products d (i_id it) = None"
  shows "\<exists>e. checkout_tx sch oid now rq d = Inl e"
proof (cases "order_create sch d (new_order_row oid now rq) (map line_item its) False")
  case (Inl e)
  with assms(1) show ?thesis by (simp add: checkout_tx_def)
next
  case (Inr r)
  obtain tx1 ord where r: "r = (tx1, ord)" by (cases r)
  from Inr r have "products tx1 = products d"
    by (auto simp: order_create_def split: if_splits)
  with assms(2) have "\<exists>e. decrement_stock (products tx1) its = Inl e"
    by (simp add: decrement_stock_missing)
  with Inr r assms(1) show ?thesis by (auto simp: checkout_tx_def)
qed

lemma place_order_failure_keeps_db:
  "status (snd (place_order sch oid now d rq)) \<noteq> 201 \<Longrightarrow> fst (place_order sch oid now d rq) = d"
  by (auto simp: place_order_def transaction_def split: sum.splits prod.splits)

lemma place_order_status:
  "status (snd (place_order sch oid now d rq)) = 201 \<or>
   status (snd (place_order sch oid now d rq)) = 500"
  by (auto simp: place_order_def transaction_def split: sum.splits prod.splits)


lemma sell_sell: "sell a (sell b p) = sell (b + a) p"
  by (simp add: sell_def)

lemma sell_zero: "sell 0 p = p"
  by (simp add: sell_def)

lemma ordered_qty_Cons:
  "ordered_qty (it # its) pid = (if i_id it = pid then i_quantity it else 0) + ordered_qty its pid"
  by (simp add: ordered_qty_def)

lemma product_update_stock_Inr:
  assumes "product_update_stock ps i q = Inr ps1"
  shows "\<exists>p. ps i = Some p \<and> ps1 = ps(i \<mapsto> sell q p) \<and>
           int32 q \<and> int32 (p_stock p - q) \<and> int32 (p_sold p + q)"
proof (cases "ps i")
  case None
  with assms show ?thesis by (simp add: product_update_stock_def)
next
  case (Some p)
  show ?thesis
  proof (cases "int32 q \<and> int32 (p_stock p - q) \<and> int32 (p_sold p + q)")
    case True
    with assms Some show ?thesis
      by (auto simp: product_update_stock_def sell_def)
  next
    case False
    with assms Some show ?thesis
      by (simp add: product_update_stock_def)
  qed
qed

lemma product_update_stock_ok:
  "ps i = Some p \<Longrightarrow> int32 q \<Longrightarrow> int32 (p_stock p - q) \<Longrightarrow> int32 (p_sold p + q) \<Longrightarrow>
   product_update_stock ps i q = Inr (ps(i \<mapsto> sell q p))"
  by (simp add: product_update_stock_def sell_def)

lemma decrement_stock_result:
  "decrement_stock ps its = Inr ps' \<Longrightarrow>
   ps' = (\<lambda>pid. map_option (sell (ordered_qty its pid)) (ps pid))"
proof (induction its arbitrary: ps)
  case Nil
  have "(\<lambda>pid. map_option (sell (ordered_qty [] pid)) (ps pid)) = ps"
    by (rule ext) (simp add: ordered_qty_def sell_zero option.map_ident cong: option.map_cong)
  with Nil show ?case by simp
next
  case (Cons it its)
  show ?case
  proof (cases "product_update_stock ps (i_id it) (i_quantity it)")
    case (Inl e)
    with Cons.prems show ?thesis by simp
  next
    case (Inr ps1)
    from product_update_stock_Inr [OF Inr] obtain p where
      p: "ps (i_id it) = Some p" and ps1: "ps1 = ps(i_id it \<mapsto> sell (i_quantity it) p)"
      by blast
    from Cons.prems Inr have "decrement_stock ps1 its = Inr ps'" by simp
    then have ih: "ps' = (\<lambda>pid. map_option (sell (ordered_qty its pid)) (ps1 pid))"
      by (rule Cons.IH)
    have "(\<lambda>pid. map_option (sell (ordered_qty its pid)) (ps1 pid)) =
          (\<lambda>pid. map_option (sell (ordered_qty (it # its) pid)) (ps pid))"
      by (rule ext) (simp add: ps1 p ordered_qty_Cons sell_sell sell_zero)
    with ih show ?thesis by simp
  qed
qed

lemma decrement_stock_Inr_all_exist:
  "decrement_stock ps its = Inr ps' \<Longrightarrow> \<forall>it \<in> set its. ps (i_id it) \<noteq> None"
proof (rule ccontr)
  assume a: "decrement_stock ps its = Inr ps'" and "\<not> (\<forall>it \<in> set its. ps (i_id it) \<noteq> None)"
  then have "\<exists>it \<in> set its. ps (i_id it) = None" by simp
  then have "\<exists>e. decrement_stock ps its = Inl e" by (rule decrement_stock_missing)
  with a show False by auto
qed

text \<open>The loop goes through when every product is there and the counters fit.\<close>

lemma counters_fit_head:
  assumes "counters_fit ps (it # its)" and "ps (i_id it) = Some p"
  shows "int32 (p_stock p - i_quantity it) \<and> int32 (p_sold p + i_quantity it)"
proof -
  have k: "Suc 0 \<in> {..length (it # its)}" and m: "it \<in> set (it # its)" by simp_all
  from assms(1) [unfolded counters_fit_def, rule_format, OF k m] assms(2)
  show ?thesis by (simp add: ordered_qty_def)
qed

lemma counters_fit_tail:
  assumes fit: "counters_fit ps (it # its)" and p: "ps (i_id it) = Some p"
  shows "counters_fit (ps(i_id it \<mapsto> sell (i_quantity it) p)) its"
  unfolding counters_fit_def
proof (intro ballI)
  fix k x
  assume k: "k \<in> {..length its}" and x: "x \<in> set its"
  from k have k': "Suc k \<in> {..length (it # its)}" by simp
  from x have x': "x \<in> set (it # its)" by simp
  note h = fit [unfolded counters_fit_def, rule_format, OF k' x']
  show "case (ps(i_id it \<mapsto> sell (i_quantity it) p)) (i_id x) of
          None \<Rightarrow> True
        | Some q \<Rightarrow>
            int32 (p_stock q - ordered_qty (take k its) (i_id x)) \<and>
            int32 (p_sold q + ordered_qty (take k its) (i_id x))"
  proof (cases "i_id x = i_id it")
    case True
    with h p show ?thesis
      by (simp add: ordered_qty_Cons sell_def algebra_simps)
  next
    case False
    then have ne: "i_id it \<noteq> i_id x" by (rule not_sym)
    with h show ?thesis
      by (cases "ps (i_id x)") (simp_all add: ordered_qty_Cons)
  qed
qed

lemma decrement_stock_fits:
  assumes "\<forall>it \<in> set its. int32 (i_quantity it)"
    and "\<forall>it \<in> set its. ps (i_id it) \<noteq> None"
    and "counters_fit ps its"
  shows "\<exists>ps'. decrement_stock ps its = Inr ps'"
  using assms
proof (induction its arbitrary: ps)
  case Nil
  then show ?case by simp
next
  case (Cons it its)
  from Cons.prems(2) obtain p where p: "ps (i_id it) = Some p" by auto
  let ?ps1 = "ps(i_id it \<mapsto> sell (i_quantity it) p)"
  from counters_fit_head [OF Cons.prems(3) p] Cons.prems(1) p
  have step: "product_update_stock ps (i_id it) (i_quantity it) = Inr ?ps1"
    by (simp add: product_update_stock_ok)
  have "\<forall>x \<in> set its. int32 (i_quantity x)" using Cons.prems(1) by simp
  moreover have "\<forall>x \<in> set its. ?ps1 (i_id x) \<noteq> None" using Cons.prems(2) by simp
  moreover have "counters_fit ?ps1 its" using Cons.prems(3) p by (rule counters_fit_tail)
  ultimately have "\<exists>ps'. decrement_stock ?ps1 its = Inr ps'" by (rule Cons.IH)
  with step show ?case by simp
qed

lemma order_create_Inr:
  "order_create sch d row its incl = Inr (d', res) \<Longrightarrow>
   d' = d\<lparr>orders := orders d @ [\<lparr>o_row = row, o_items = its\<rparr>]\<rparr> \<and>
   res = \<lparr>r_row = row, r_items = (if incl then Some its else None)\<rparr> \<and>
   o_id row \<notin> set (order_ids d)"
  by (auto simp: order_create_def order_ids_def split: if_splits)

lemma place_order_success:
  assumes "place_order sch oid now d rq = (d', r)" and "status r = 201"
  shows "\<exists>its. items rq = Some its \<and>
     (\<exists>x. order_create sch d (new_order_row oid now rq) (map line_item its) False = Inr x) \<and>
     (\<forall>it \<in> set its. products d (i_id it) \<noteq> None) \<and>
     d' = d\<lparr>orders := orders d @ [\<lparr>o_row = new_order_row oid now rq, o_items = map line_item its\<rparr>],
            products := (\<lambda>pid. map_option (sell (ordered_qty its pid)) (products d pid))\<rparr> \<and>
     r = \<lparr>status = 201, body = OrderJson \<lparr>r_row = new_order_row oid now rq, r_items = None\<rparr>\<rparr>"
proof -
  from assms obtain res where tx: "checkout_tx sch oid now rq d = Inr (d', res)"
    and r: "r = \<lparr>status = 201, body = OrderJson res\<rparr>"
    by (auto simp: place_order_def transaction_def split: sum.splits prod.splits)
  from tx obtain its where its: "items rq = Some its"
    by (auto simp: checkout_tx_def split: option.splits)
  from tx its obtain tx1 ord ps where
    oc: "order_create sch d (new_order_row oid now rq) (map line_item its) False = Inr (tx1, ord)"
    and ds: "decrement_stock (products tx1) its = Inr ps"
    and d': "d' = tx1\<lparr>products := ps\<rparr>" and res: "res = ord"
    by (auto simp: checkout_tx_def split: sum.splits prod.splits)
  note c = order_create_Inr [OF oc]
  from c have ptx: "products tx1 = products d" by simp
  from ds ptx have ex: "\<forall>it \<in> set its. products d (i_id it) \<noteq> None"
    using decrement_stock_Inr_all_exist by metis
  from decrement_stock_result [OF ds] ptx
  have ps: "ps = (\<lambda>pid. map_option (sell (ordered_qty its pid)) (products d pid))" by simp
  show ?thesis
    using its oc ex c d' ps r res by auto
qed

lemma place_order_succeeds:
  assumes "items rq = Some its"
    and "order_create sch d (new_order_row oid now rq) (map line_item its) False = Inr x"
    and "\<forall>it \<in> set its. products d (i_id it) \<noteq> None"
    and "\<forall>it \<in> set its. int32 (i_quantity it)"
    and "counters_fit (products d) its"
  shows "status (snd (place_order sch oid now d rq)) = 201"
proof -
  obtain tx1 ord where x: "x = (tx1, ord)" by (cases x)
  from assms(2) x have "products tx1 = products d"
    by (auto dest: order_create_Inr)
  with decrement_stock_fits [OF assms(4) assms(3) assms(5)]
  obtain ps' where "decrement_stock (products tx1) its = Inr ps'" by auto
  with assms(1,2) x show ?thesis
    by (simp add: place_order_def transaction_def checkout_tx_def)
qed

lemmas example_defs =
  db0_def user1_def address1_def product_x_def all_fks_def no_fks_def item_of_def checkout_def

lemmas handler_defs =
  place_order_def transaction_def checkout_tx_def order_create_def new_order_row_def
  line_item_def product_update_stock_def place_order_mobile_def int32_def


section \<open>Atomicity of the checkout\<close>

text \<open>
  C1. \<^verbatim>\<open>POST /orders\<close> is all or nothing. Whenever the response is not 201 the
  database after the call is the database before it: no order, no line item and no
  change of stock or sold. In particular, when a line item names a product that is
  not in the product table the response is 500 and the database is unchanged, also
  when products earlier in the list had already been decremented inside the
  transaction. The response is always 201 or 500.
\<close>

theorem place_order_atomic:
  assumes "place_order sch oid now d rq = (d', r)"
  shows "(status r \<noteq> 201 \<longrightarrow> d' = d) \<and>
         (\<forall>its. items rq = Some its \<and> (\<exists>it \<in> set its. products d (i_id it) = None)
             \<longrightarrow> status r = 500 \<and> d' = d) \<and>
         (status r = 201 \<or> status r = 500)"
proof -
  have a: "status r \<noteq> 201 \<longrightarrow> d' = d"
    using assms place_order_failure_keeps_db [of sch oid now d rq] by simp
  have c: "status r = 201 \<or> status r = 500"
    using assms place_order_status [of sch oid now d rq] by simp
  have b: "status r = 500 \<and> d' = d"
    if "items rq = Some its" and "\<exists>it \<in> set its. products d (i_id it) = None" for its
  proof -
    from that obtain e where "checkout_tx sch oid now rq d = Inl e"
      using checkout_tx_missing by blast
    with assms show ?thesis
      by (auto simp: place_order_def transaction_def)
  qed
  from a b c show ?thesis by blast
qed

theorem place_order_atomic_witness:
  "items (checkout (Some [item_of ''X'' 3, item_of ''Y'' 1])) = Some [item_of ''X'' 3, item_of ''Y'' 1] \<and>
   (\<exists>it \<in> set [item_of ''X'' 3, item_of ''Y'' 1]. products db0 (i_id it) = None) \<and>
   status (snd (place_order no_fks ''o1'' 7 db0 (checkout (Some [item_of ''X'' 3, item_of ''Y'' 1])))) = 500 \<and>
   fst (place_order no_fks ''o1'' 7 db0 (checkout (Some [item_of ''X'' 3, item_of ''Y'' 1]))) = db0"
proof -
  let ?its = "[item_of ''X'' 3, item_of ''Y'' 1]"
  have h1: "items (checkout (Some ?its)) = Some ?its"
    by (simp add: checkout_def)
  have h2: "\<exists>it \<in> set ?its. products db0 (i_id it) = None"
    by (simp add: db0_def item_of_def)
  obtain d' r where pr: "place_order no_fks ''o1'' 7 db0 (checkout (Some ?its)) = (d', r)"
    by (cases "place_order no_fks ''o1'' 7 db0 (checkout (Some ?its))")
  from place_order_atomic [OF pr] h1 h2 have "status r = 500 \<and> d' = db0" by blast
  with pr h1 h2 show ?thesis by simp
qed


lemma ordered_qty_single:
  "filter (\<lambda>x. i_id x = pid) its = [it] \<Longrightarrow> ordered_qty its pid = i_quantity it"
  by (simp add: ordered_qty_def)

section \<open>Stock and sold after a checkout\<close>

text \<open>
  C2 (as amended). After a successful \<^verbatim>\<open>POST /orders\<close>, every product \<open>P\<close> a line item
  names has \<open>stock_after = stock_before - Q\<close> and \<open>sold_after = sold_before + Q\<close>, where
  \<open>Q\<close> is the sum of the quantities of all the line items of the request that name
  \<open>P\<close>: sold goes up by exactly what stock goes down. When one line item alone names
  \<open>P\<close>, \<open>Q\<close> is that item's quantity. Products no line item names are unchanged, and
  the order is created in the same step.
\<close>

theorem place_order_stock_sold:
  assumes "place_order sch oid now d rq = (d', r)" and "status r = 201"
  shows "\<exists>its. items rq = Some its \<and>
     (\<forall>it \<in> set its. \<exists>p p'.
         products d (i_id it) = Some p \<and> products d' (i_id it) = Some p' \<and>
         p_stock p' = p_stock p - ordered_qty its (i_id it) \<and>
         p_sold p' = p_sold p + ordered_qty its (i_id it) \<and>
         p_stock p - p_stock p' = p_sold p' - p_sold p \<and>
         (filter (\<lambda>x. i_id x = i_id it) its = [it] \<longrightarrow>
            p_stock p' = p_stock p - i_quantity it \<and> p_sold p' = p_sold p + i_quantity it)) \<and>
     (\<forall>pid. pid \<notin> i_id ` set its \<longrightarrow> products d' pid = products d pid) \<and>
     orders d' = orders d @ [\<lparr>o_row = new_order_row oid now rq, o_items = map line_item its\<rparr>]"
proof -
  from place_order_success [OF assms] obtain its where
    its: "items rq = Some its"
    and ex: "\<forall>it \<in> set its. products d (i_id it) \<noteq> None"
    and d': "d' = d\<lparr>orders := orders d @ [\<lparr>o_row = new_order_row oid now rq, o_items = map line_item its\<rparr>],
            products := (\<lambda>pid. map_option (sell (ordered_qty its pid)) (products d pid))\<rparr>"
    by blast
  have one: "\<exists>p p'.
         products d (i_id it) = Some p \<and> products d' (i_id it) = Some p' \<and>
         p_stock p' = p_stock p - ordered_qty its (i_id it) \<and>
         p_sold p' = p_sold p + ordered_qty its (i_id it) \<and>
         p_stock p - p_stock p' = p_sold p' - p_sold p \<and>
         (filter (\<lambda>x. i_id x = i_id it) its = [it] \<longrightarrow>
            p_stock p' = p_stock p - i_quantity it \<and> p_sold p' = p_sold p + i_quantity it)"
    if "it \<in> set its" for it
  proof -
    from ex that obtain p where p: "products d (i_id it) = Some p" by auto
    have "products d' (i_id it) = Some (sell (ordered_qty its (i_id it)) p)"
      by (simp add: d' p)
    with p show ?thesis
      by (auto simp: sell_def ordered_qty_single)
  qed
  have other: "products d' pid = products d pid" if "pid \<notin> i_id ` set its" for pid
  proof -
    from that have "filter (\<lambda>x. i_id x = pid) its = []"
      by (auto simp: filter_empty_conv)
    then have "ordered_qty its pid = 0" by (simp add: ordered_qty_def)
    then show ?thesis
      by (cases "products d pid") (simp_all add: d' sell_zero)
  qed
  from its one other d' show ?thesis by auto
qed

lemmas eval_defs = example_defs handler_defs


theorem place_order_stock_sold_witness:
  "status (snd (place_order all_fks ''o1'' 7 db0 (checkout (Some [item_of ''X'' 3])))) = 201 \<and>
   map_option p_stock (products db0 ''X'') = Some 5 \<and>
   map_option p_sold (products db0 ''X'') = Some 0 \<and>
   map_option p_stock
     (products (fst (place_order all_fks ''o1'' 7 db0 (checkout (Some [item_of ''X'' 3])))) ''X'')
     = Some 2 \<and>
   map_option p_sold
     (products (fst (place_order all_fks ''o1'' 7 db0 (checkout (Some [item_of ''X'' 3])))) ''X'')
     = Some 3"
proof -
  let ?rq = "checkout (Some [item_of ''X'' 3])"
  obtain d' r where pr: "place_order all_fks ''o1'' 7 db0 ?rq = (d', r)"
    by (cases "place_order all_fks ''o1'' 7 db0 ?rq")
  have st: "status r = 201"
    using pr by (auto simp: eval_defs)
  from place_order_stock_sold [OF pr st] obtain its where
    its: "items ?rq = Some its"
    and every: "\<forall>it \<in> set its. \<exists>p p'.
         products db0 (i_id it) = Some p \<and> products d' (i_id it) = Some p' \<and>
         p_stock p' = p_stock p - ordered_qty its (i_id it) \<and>
         p_sold p' = p_sold p + ordered_qty its (i_id it) \<and>
         p_stock p - p_stock p' = p_sold p' - p_sold p \<and>
         (filter (\<lambda>x. i_id x = i_id it) its = [it] \<longrightarrow>
            p_stock p' = p_stock p - i_quantity it \<and> p_sold p' = p_sold p + i_quantity it)"
    by blast
  from its have "its = [item_of ''X'' 3]" by (simp add: checkout_def)
  with every have "\<exists>p p'. products db0 ''X'' = Some p \<and> products d' ''X'' = Some p' \<and>
      p_stock p' = p_stock p - 3 \<and> p_sold p' = p_sold p + 3"
    by (auto simp: item_of_def)
  then show ?thesis
    using pr st by (auto simp: db0_def product_x_def)
qed

text \<open>
  C2 as stated fails when two line items name the same product: with stock 5 and
  line items of quantity 1 and 2 for \<open>X\<close>, the call succeeds and leaves stock 2 and
  sold 3, not \<open>5 - 1\<close> and \<open>0 + 1\<close> as the claim says for the first line item.
\<close>

theorem place_order_same_product_twice_counterexample:
  "status (snd (place_order all_fks ''o1'' 7 db0
      (checkout (Some [item_of ''X'' 1, item_of ''X'' 2])))) = 201 \<and>
   map_option p_stock (products db0 ''X'') = Some 5 \<and>
   map_option p_sold (products db0 ''X'') = Some 0 \<and>
   i_quantity (item_of ''X'' 1) = 1 \<and>
   map_option p_stock (products (fst (place_order all_fks ''o1'' 7 db0
      (checkout (Some [item_of ''X'' 1, item_of ''X'' 2])))) ''X'') = Some 2 \<and>
   map_option p_sold (products (fst (place_order all_fks ''o1'' 7 db0
      (checkout (Some [item_of ''X'' 1, item_of ''X'' 2])))) ''X'') = Some 3 \<and>
   (2::int) \<noteq> 5 - 1 \<and> (3::int) \<noteq> 0 + 1"
  by (simp add: eval_defs)

section \<open>A checkout without line items\<close>

text \<open>
  C3 (as amended). A request without \<^verbatim>\<open>items\<close> is answered 500 and the database is
  unchanged. A request whose \<^verbatim>\<open>items\<close> is the empty list is not rejected: when the
  order row can be inserted (the generated id is free and the buyer and address
  relations the schema enforces are present) the answer is 201 and an order with no
  line item is stored, every product untouched.
\<close>

theorem place_order_without_items:
  "(items rq = None \<longrightarrow>
      place_order sch oid now d rq =
        (d, \<lparr>status = 500,
              body = ErrorJson ''Erro ao processar pagamento ou falta de estoque.''\<rparr>)) \<and>
   (items rq = Some [] \<and> oid \<notin> set (order_ids d) \<and>
    (fk_customer sch \<longrightarrow> customerId rq \<in> set (map u_id (users d))) \<and>
    (fk_address sch \<longrightarrow> addressId rq \<in> set (map a_id (addresses d))) \<longrightarrow>
      place_order sch oid now d rq =
        (d\<lparr>orders := orders d @ [\<lparr>o_row = new_order_row oid now rq, o_items = []\<rparr>]\<rparr>,
         \<lparr>status = 201,
          body = OrderJson \<lparr>r_row = new_order_row oid now rq, r_items = None\<rparr>\<rparr>))"
  by (auto simp: place_order_def transaction_def checkout_tx_def order_create_def
      order_ids_def new_order_row_def)

theorem place_order_without_items_witness:
  "items (checkout None) = None \<and>
   place_order all_fks ''o1'' 7 db0 (checkout None) =
     (db0, \<lparr>status = 500,
            body = ErrorJson ''Erro ao processar pagamento ou falta de estoque.''\<rparr>) \<and>
   items (checkout (Some [])) = Some [] \<and> ''o1'' \<notin> set (order_ids db0) \<and>
   customerId (checkout (Some [])) \<in> set (map u_id (users db0)) \<and>
   addressId (checkout (Some [])) \<in> set (map a_id (addresses db0)) \<and>
   place_order all_fks ''o1'' 7 db0 (checkout (Some [])) =
     (db0\<lparr>orders := orders db0 @
            [\<lparr>o_row = new_order_row ''o1'' 7 (checkout (Some [])), o_items = []\<rparr>]\<rparr>,
      \<lparr>status = 201,
       body = OrderJson \<lparr>r_row = new_order_row ''o1'' 7 (checkout (Some [])), r_items = None\<rparr>\<rparr>)"
proof -
  have a: "items (checkout None) = None" by (simp add: checkout_def)
  have b: "items (checkout (Some [])) = Some []" by (simp add: checkout_def)
  have c: "''o1'' \<notin> set (order_ids db0)" by (simp add: order_ids_def db0_def)
  have e: "customerId (checkout (Some [])) \<in> set (map u_id (users db0))"
    by (simp add: checkout_def db0_def user1_def)
  have f: "addressId (checkout (Some [])) \<in> set (map a_id (addresses db0))"
    by (simp add: checkout_def db0_def address1_def)
  from place_order_without_items
    [where rq = "checkout None" and sch = all_fks and oid = "''o1''" and now = 7 and d = db0] a
  have g: "place_order all_fks ''o1'' 7 db0 (checkout None) =
     (db0, \<lparr>status = 500,
            body = ErrorJson ''Erro ao processar pagamento ou falta de estoque.''\<rparr>)"
    by blast
  from place_order_without_items
    [where rq = "checkout (Some [])" and sch = all_fks and oid = "''o1''" and now = 7 and d = db0] b c e f
  have h: "place_order all_fks ''o1'' 7 db0 (checkout (Some [])) =
     (db0\<lparr>orders := orders db0 @
            [\<lparr>o_row = new_order_row ''o1'' 7 (checkout (Some [])), o_items = []\<rparr>]\<rparr>,
      \<lparr>status = 201,
       body = OrderJson \<lparr>r_row = new_order_row ''o1'' 7 (checkout (Some [])), r_items = None\<rparr>\<rparr>)"
    by blast
  from a b c e f g h show ?thesis by blast
qed

text \<open>
  C3 as stated fails for \<^verbatim>\<open>items: []\<close>: the call answers 201 and stores an order
  that has no line item.
\<close>

theorem place_order_empty_items_counterexample:
  "items (checkout (Some [])) = Some [] \<and>
   status (snd (place_order all_fks ''o1'' 7 db0 (checkout (Some [])))) = 201 \<and>
   orders db0 = [] \<and>
   map o_items (orders (fst (place_order all_fks ''o1'' 7 db0 (checkout (Some []))))) = [[]]"
  by (simp add: eval_defs)

section \<open>Stock below zero\<close>

text \<open>
  C4. Stock is meant never to go below zero through a checkout. The handler
  decrements without comparing: with 5 units of \<open>X\<close> in stock, an order of 7 units is
  answered 201 and leaves the stock at \<open>-2\<close>.
\<close>

theorem place_order_oversells:
  "map_option p_stock (products db0 ''X'') = Some 5 \<and>
   status (snd (place_order all_fks ''o1'' 7 db0 (checkout (Some [item_of ''X'' 7])))) = 201 \<and>
   map_option p_stock
     (products (fst (place_order all_fks ''o1'' 7 db0 (checkout (Some [item_of ''X'' 7])))) ''X'')
     = Some (- 2)"
  by (simp add: eval_defs)

section \<open>The body of the response\<close>

text \<open>
  C6. The 201 response is meant to carry the stored order with its line items. The
  transactional handler calls \<^verbatim>\<open>order.create\<close> without \<^verbatim>\<open>include: { items: true }\<close>, so
  its body has the order's scalar columns and no line items, although the line item is
  stored; the first version of the handler, on the same request, returns them.
\<close>

theorem place_order_response_omits_items:
  "snd (place_order all_fks ''o1'' 7 db0 (checkout (Some [item_of ''X'' 3]))) =
     \<lparr>status = 201,
      body = OrderJson \<lparr>r_row = new_order_row ''o1'' 7 (checkout (Some [item_of ''X'' 3])),
                        r_items = None\<rparr>\<rparr> \<and>
   items_of_order (fst (place_order all_fks ''o1'' 7 db0 (checkout (Some [item_of ''X'' 3]))))
     ''o1'' = [[line_item (item_of ''X'' 3)]] \<and>
   snd (place_order_mobile all_fks ''o1'' 7 db0 (checkout (Some [item_of ''X'' 3]))) =
     \<lparr>status = 201,
      body = OrderJson \<lparr>r_row = new_order_row ''o1'' 7 (checkout (Some [item_of ''X'' 3])),
                        r_items = Some [line_item (item_of ''X'' 3)]\<rparr>\<rparr>"
  by (simp add: eval_defs items_of_order_def)


section \<open>The same checkout twice\<close>

lemma order_create_Inr_iff:
  "(\<exists>x. order_create sch d row its incl = Inr x) \<longleftrightarrow>
     (\<forall>x \<in> set its. int32 (oi_quantity x)) \<and>
     o_id row \<notin> set (order_ids d) \<and>
     (fk_customer sch \<longrightarrow> o_customerId row \<in> set (map u_id (users d))) \<and>
     (fk_address sch \<longrightarrow> o_addressId row \<in> set (map a_id (addresses d))) \<and>
     (fk_product sch \<longrightarrow> (\<forall>x \<in> set its. products d (oi_productId x) \<noteq> None))"
  by (auto simp: order_create_def order_ids_def)

lemma place_order_order_ids:
  assumes "place_order sch oid now d rq = (d', r)" and "status r = 201"
  shows "order_ids d' = order_ids d @ [oid]" and "oid \<notin> set (order_ids d)"
proof -
  from place_order_success [OF assms] obtain its x where
    oc: "order_create sch d (new_order_row oid now rq) (map line_item its) False = Inr x"
    and d': "d' = d\<lparr>orders := orders d @ [\<lparr>o_row = new_order_row oid now rq, o_items = map line_item its\<rparr>],
            products := (\<lambda>pid. map_option (sell (ordered_qty its pid)) (products d pid))\<rparr>"
    by blast
  from d' show "order_ids d' = order_ids d @ [oid]"
    by (simp add: order_ids_def new_order_row_def)
  from oc have "\<exists>x. order_create sch d (new_order_row oid now rq) (map line_item its) False = Inr x"
    by blast
  then show "oid \<notin> set (order_ids d)"
    unfolding order_create_Inr_iff by (simp add: new_order_row_def)
qed

text \<open>
  C7 (as amended). \<^verbatim>\<open>POST /orders\<close> is not idempotent. When a checkout succeeds and
  the same body is sent again (the database generating an order id that is not in
  use), the second call succeeds too provided the counters fit: while its loop runs,
  the stock and sold of every product named stay within 32 bits. Then the two orders
  are distinct rows with distinct ids and the same line items, and the stock of every
  product named goes down, and its sold counter up, by twice the quantity ordered of
  it.
\<close>

theorem place_order_twice:
  assumes first: "place_order sch oid1 now1 d rq = (d1, r1)" and ok1: "status r1 = 201"
    and fresh: "oid2 \<notin> set (order_ids d1)"
    and fits: "\<forall>its. items rq = Some its \<longrightarrow> counters_fit (products d1) its"
    and second: "place_order sch oid2 now2 d1 rq = (d2, r2)"
  shows "status r2 = 201 \<and> oid1 \<noteq> oid2 \<and>
     (\<exists>its. items rq = Some its \<and>
        orders d2 = orders d @
          [\<lparr>o_row = new_order_row oid1 now1 rq, o_items = map line_item its\<rparr>,
           \<lparr>o_row = new_order_row oid2 now2 rq, o_items = map line_item its\<rparr>] \<and>
        (\<forall>it \<in> set its. \<exists>p p2.
           products d (i_id it) = Some p \<and> products d2 (i_id it) = Some p2 \<and>
           p_stock p2 = p_stock p - 2 * ordered_qty its (i_id it) \<and>
           p_sold p2 = p_sold p + 2 * ordered_qty its (i_id it)))"
proof -
  from place_order_success [OF first ok1] obtain its x where
    its: "items rq = Some its"
    and oc: "order_create sch d (new_order_row oid1 now1 rq) (map line_item its) False = Inr x"
    and ex: "\<forall>it \<in> set its. products d (i_id it) \<noteq> None"
    and d1: "d1 = d\<lparr>orders := orders d @ [\<lparr>o_row = new_order_row oid1 now1 rq, o_items = map line_item its\<rparr>],
            products := (\<lambda>pid. map_option (sell (ordered_qty its pid)) (products d pid))\<rparr>"
    by blast
  from place_order_order_ids [OF first ok1] fresh have ne: "oid1 \<noteq> oid2" by auto
  have ex1: "\<forall>it \<in> set its. products d1 (i_id it) \<noteq> None"
    using ex by (simp add: d1)
  from oc have oc': "\<exists>x. order_create sch d (new_order_row oid1 now1 rq) (map line_item its) False = Inr x"
    by blast
  then have qs: "\<forall>it \<in> set its. int32 (i_quantity it)"
    unfolding order_create_Inr_iff by (simp add: line_item_def)
  from oc' have "\<exists>y. order_create sch d1 (new_order_row oid2 now2 rq) (map line_item its) False = Inr y"
    unfolding order_create_Inr_iff using fresh
    by (simp add: d1 new_order_row_def)
  then obtain y where
    oc2: "order_create sch d1 (new_order_row oid2 now2 rq) (map line_item its) False = Inr y" ..
  from fits its have fit: "counters_fit (products d1) its" by blast
  from place_order_succeeds [OF its oc2 ex1 qs fit] second have ok2: "status r2 = 201" by simp
  from place_order_success [OF second ok2] its have
    d2: "d2 = d1\<lparr>orders := orders d1 @ [\<lparr>o_row = new_order_row oid2 now2 rq, o_items = map line_item its\<rparr>],
            products := (\<lambda>pid. map_option (sell (ordered_qty its pid)) (products d1 pid))\<rparr>"
    by auto
  have ords: "orders d2 = orders d @
          [\<lparr>o_row = new_order_row oid1 now1 rq, o_items = map line_item its\<rparr>,
           \<lparr>o_row = new_order_row oid2 now2 rq, o_items = map line_item its\<rparr>]"
    by (simp add: d2 d1)
  have prods: "\<exists>p p2.
           products d (i_id it) = Some p \<and> products d2 (i_id it) = Some p2 \<and>
           p_stock p2 = p_stock p - 2 * ordered_qty its (i_id it) \<and>
           p_sold p2 = p_sold p + 2 * ordered_qty its (i_id it)" if "it \<in> set its" for it
  proof -
    from ex that obtain p where p: "products d (i_id it) = Some p" by auto
    then have "products d2 (i_id it) =
       Some (sell (ordered_qty its (i_id it)) (sell (ordered_qty its (i_id it)) p))"
      by (simp add: d2 d1)
    with p show ?thesis by (simp add: sell_def)
  qed
  from ok2 ne its ords prods show ?thesis by blast
qed

theorem place_order_twice_witness:
  "status (snd (place_order all_fks ''o1'' 7 db0 (checkout (Some [item_of ''X'' 3])))) = 201 \<and>
   ''o2'' \<notin> set (order_ids (fst (place_order all_fks ''o1'' 7 db0 (checkout (Some [item_of ''X'' 3]))))) \<and>
   counters_fit
     (products (fst (place_order all_fks ''o1'' 7 db0 (checkout (Some [item_of ''X'' 3])))))
     [item_of ''X'' 3] \<and>
   status (snd (place_order all_fks ''o2'' 8
      (fst (place_order all_fks ''o1'' 7 db0 (checkout (Some [item_of ''X'' 3]))))
      (checkout (Some [item_of ''X'' 3])))) = 201 \<and>
   map_option p_stock (products db0 ''X'') = Some 5 \<and>
   map_option p_stock (products (fst (place_order all_fks ''o2'' 8
      (fst (place_order all_fks ''o1'' 7 db0 (checkout (Some [item_of ''X'' 3]))))
      (checkout (Some [item_of ''X'' 3])))) ''X'') = Some (- 1)"
proof -
  let ?rq = "checkout (Some [item_of ''X'' 3])"
  let ?d1 = "fst (place_order all_fks ''o1'' 7 db0 ?rq)"
  let ?r1 = "snd (place_order all_fks ''o1'' 7 db0 ?rq)"
  have p1: "place_order all_fks ''o1'' 7 db0 ?rq = (?d1, ?r1)" by simp
  obtain d2 r2 where p2: "place_order all_fks ''o2'' 8 ?d1 ?rq = (d2, r2)"
    by (cases "place_order all_fks ''o2'' 8 ?d1 ?rq")
  have ok1: "status ?r1 = 201" by (simp add: eval_defs)
  have fresh: "''o2'' \<notin> set (order_ids ?d1)"
    by (simp add: eval_defs order_ids_def)
  have fit: "counters_fit (products ?d1) [item_of ''X'' 3]"
    by (simp add: eval_defs counters_fit_def ordered_qty_def atMost_Suc)
  have fits: "\<forall>its. items ?rq = Some its \<longrightarrow> counters_fit (products ?d1) its"
    using fit by (simp add: checkout_def)
  from place_order_twice [OF p1 ok1 fresh fits p2] obtain its where
    ok2: "status r2 = 201" and its: "items ?rq = Some its"
    and every: "\<forall>it \<in> set its. \<exists>p p2.
           products db0 (i_id it) = Some p \<and> products d2 (i_id it) = Some p2 \<and>
           p_stock p2 = p_stock p - 2 * ordered_qty its (i_id it) \<and>
           p_sold p2 = p_sold p + 2 * ordered_qty its (i_id it)"
    by blast
  from its have "its = [item_of ''X'' 3]" by (simp add: checkout_def)
  with every have "\<exists>p p2. products db0 ''X'' = Some p \<and> products d2 ''X'' = Some p2 \<and>
      p_stock p2 = p_stock p - 6"
    by (auto simp: item_of_def ordered_qty_def)
  then have "map_option p_stock (products db0 ''X'') = Some 5 \<and>
     map_option p_stock (products d2 ''X'') = Some (- 1)"
    by (auto simp: db0_def product_x_def)
  with p2 ok1 ok2 fresh fit show ?thesis by simp
qed

text \<open>
  C7 as stated fails when the counters do not fit: with sold 0, a checkout of
  2147483647 units of \<open>X\<close> succeeds, leaving sold at 2147483647; the same body sent
  again, with a fresh order id, would take sold past 32 bits, so the update raises,
  the transaction is rolled back and the answer is 500: no second order, no second
  decrement.
\<close>

theorem place_order_twice_overflow_counterexample:
  "status (snd (place_order all_fks ''o1'' 7 db0
      (checkout (Some [item_of ''X'' 2147483647])))) = 201 \<and>
   map_option p_sold (products (fst (place_order all_fks ''o1'' 7 db0
      (checkout (Some [item_of ''X'' 2147483647])))) ''X'') = Some 2147483647 \<and>
   ''o2'' \<notin> set (order_ids (fst (place_order all_fks ''o1'' 7 db0
      (checkout (Some [item_of ''X'' 2147483647]))))) \<and>
   status (snd (place_order all_fks ''o2'' 8
      (fst (place_order all_fks ''o1'' 7 db0 (checkout (Some [item_of ''X'' 2147483647]))))
      (checkout (Some [item_of ''X'' 2147483647])))) = 500 \<and>
   fst (place_order all_fks ''o2'' 8
      (fst (place_order all_fks ''o1'' 7 db0 (checkout (Some [item_of ''X'' 2147483647]))))
      (checkout (Some [item_of ''X'' 2147483647]))) =
     fst (place_order all_fks ''o1'' 7 db0 (checkout (Some [item_of ''X'' 2147483647])))"
  by (simp add: eval_defs order_ids_def)

section \<open>The first version of the checkout writes no product\<close>

text \<open>
  C9. The mobile-checkout \<^verbatim>\<open>POST /orders\<close> leaves the product table as it is for
  every request, and when it answers 201 it has stored the order with one line item
  per item of the request. The transactional handler, when it answers 201, has
  replaced the row of every product a line item names by the row with stock
  decremented and sold incremented.
\<close>

theorem place_order_mobile_keeps_products:
  "products (fst (place_order_mobile sch oid now d rq)) = products d \<and>
   (status (snd (place_order_mobile sch oid now d rq)) = 201 \<longrightarrow>
      (\<exists>its. items rq = Some its \<and>
         orders (fst (place_order_mobile sch oid now d rq)) =
           orders d @ [\<lparr>o_row = new_order_row oid now rq, o_items = map line_item its\<rparr>])) \<and>
   (status (snd (place_order sch oid now d rq)) = 201 \<longrightarrow>
      (\<exists>its. items rq = Some its \<and>
         (\<forall>it \<in> set its. \<exists>p.
            products d (i_id it) = Some p \<and>
            products (fst (place_order sch oid now d rq)) (i_id it) =
              Some (p\<lparr>p_stock := p_stock p - ordered_qty its (i_id it),
                      p_sold := p_sold p + ordered_qty its (i_id it)\<rparr>))))"
proof -
  have a: "products (fst (place_order_mobile sch oid now d rq)) = products d"
    by (auto simp: place_order_mobile_def order_create_def split: option.splits)
  have b: "\<exists>its. items rq = Some its \<and>
         orders (fst (place_order_mobile sch oid now d rq)) =
           orders d @ [\<lparr>o_row = new_order_row oid now rq, o_items = map line_item its\<rparr>]"
    if "status (snd (place_order_mobile sch oid now d rq)) = 201"
    using that
    by (auto simp: place_order_mobile_def order_create_def split: option.splits if_splits)
  have c: "\<exists>its. items rq = Some its \<and>
         (\<forall>it \<in> set its. \<exists>p.
            products d (i_id it) = Some p \<and>
            products (fst (place_order sch oid now d rq)) (i_id it) =
              Some (p\<lparr>p_stock := p_stock p - ordered_qty its (i_id it),
                      p_sold := p_sold p + ordered_qty its (i_id it)\<rparr>))"
    if ok: "status (snd (place_order sch oid now d rq)) = 201"
  proof -
    obtain d' r where pr: "place_order sch oid now d rq = (d', r)"
      by (cases "place_order sch oid now d rq")
    with ok have "status r = 201" by simp
    from place_order_success [OF pr this] obtain its where
      its: "items rq = Some its"
      and ex: "\<forall>it \<in> set its. products d (i_id it) \<noteq> None"
      and d': "d' = d\<lparr>orders := orders d @ [\<lparr>o_row = new_order_row oid now rq, o_items = map line_item its\<rparr>],
            products := (\<lambda>pid. map_option (sell (ordered_qty its pid)) (products d pid))\<rparr>"
      by blast
    have "\<exists>p. products d (i_id it) = Some p \<and>
            products (fst (place_order sch oid now d rq)) (i_id it) =
              Some (p\<lparr>p_stock := p_stock p - ordered_qty its (i_id it),
                      p_sold := p_sold p + ordered_qty its (i_id it)\<rparr>)" if "it \<in> set its" for it
    proof -
      from ex that obtain p where "products d (i_id it) = Some p" by auto
      then show ?thesis by (simp add: pr d' sell_def)
    qed
    with its show ?thesis by blast
  qed
  from a b c show ?thesis by blast
qed

theorem place_order_mobile_keeps_products_witness:
  "status (snd (place_order_mobile all_fks ''o1'' 7 db0 (checkout (Some [item_of ''X'' 3])))) = 201 \<and>
   status (snd (place_order all_fks ''o1'' 7 db0 (checkout (Some [item_of ''X'' 3])))) = 201 \<and>
   products (fst (place_order_mobile all_fks ''o1'' 7 db0 (checkout (Some [item_of ''X'' 3]))))
     = products db0 \<and>
   map o_items (orders (fst
      (place_order_mobile all_fks ''o1'' 7 db0 (checkout (Some [item_of ''X'' 3])))))
     = [[line_item (item_of ''X'' 3)]] \<and>
   map_option p_stock (products db0 ''X'') = Some 5 \<and>
   map_option p_stock (products
      (fst (place_order all_fks ''o1'' 7 db0 (checkout (Some [item_of ''X'' 3])))) ''X'') = Some 2"
proof -
  let ?rq = "checkout (Some [item_of ''X'' 3])"
  have m: "status (snd (place_order_mobile all_fks ''o1'' 7 db0 ?rq)) = 201"
    by (simp add: eval_defs)
  have t: "status (snd (place_order all_fks ''o1'' 7 db0 ?rq)) = 201"
    by (simp add: eval_defs)
  note th = place_order_mobile_keeps_products
    [where sch = all_fks and oid = "''o1''" and now = 7 and d = db0 and rq = ?rq]
  from th have a: "products (fst (place_order_mobile all_fks ''o1'' 7 db0 ?rq)) = products db0"
    by blast
  from th m obtain its where "items ?rq = Some its"
    and o: "orders (fst (place_order_mobile all_fks ''o1'' 7 db0 ?rq)) =
           orders db0 @ [\<lparr>o_row = new_order_row ''o1'' 7 ?rq, o_items = map line_item its\<rparr>]"
    by blast
  then have b: "map o_items (orders (fst (place_order_mobile all_fks ''o1'' 7 db0 ?rq)))
     = [[line_item (item_of ''X'' 3)]]"
    by (auto simp: checkout_def db0_def)
  from th t obtain its' where "items ?rq = Some its'"
    and "\<forall>it \<in> set its'. \<exists>p.
            products db0 (i_id it) = Some p \<and>
            products (fst (place_order all_fks ''o1'' 7 db0 ?rq)) (i_id it) =
              Some (p\<lparr>p_stock := p_stock p - ordered_qty its' (i_id it),
                      p_sold := p_sold p + ordered_qty its' (i_id it)\<rparr>)"
    by blast
  then have "\<exists>p. products db0 ''X'' = Some p \<and>
       products (fst (place_order all_fks ''o1'' 7 db0 ?rq)) ''X'' =
         Some (p\<lparr>p_stock := p_stock p - 3, p_sold := p_sold p + 3\<rparr>)"
    by (auto simp: checkout_def item_of_def ordered_qty_def)
  then have c: "map_option p_stock (products db0 ''X'') = Some 5 \<and>
     map_option p_stock (products (fst (place_order all_fks ''o1'' 7 db0 ?rq)) ''X'') = Some 2"
    by (auto simp: db0_def product_x_def)
  from m t a b c show ?thesis by blast
qed


section \<open>Line items are snapshots\<close>

lemma items_of_order_map:
  assumes "\<And>x. o_id (o_row (f x)) = o_id (o_row x)" and "\<And>x. o_items (f x) = o_items x"
  shows "map o_items (filter (\<lambda>x. o_id (o_row x) = oid) (map f xs)) =
         map o_items (filter (\<lambda>x. o_id (o_row x) = oid) xs)"
  by (induction xs) (simp_all add: assms)

lemma patch_order_status_items:
  "items_of_order (fst (patch_order_status d oid' st)) oid = items_of_order d oid"
proof (cases "find (\<lambda>x. o_id (o_row x) = oid') (orders d)")
  case None
  then show ?thesis by (simp add: patch_order_status_def)
next
  case (Some x)
  let ?f = "\<lambda>y. if o_id (o_row y) = oid' then set_status st y else y"
  have "map o_items (filter (\<lambda>x. o_id (o_row x) = oid) (map ?f (orders d))) =
        map o_items (filter (\<lambda>x. o_id (o_row x) = oid) (orders d))"
    by (rule items_of_order_map) (simp_all add: set_status_def)
  with Some show ?thesis
    by (simp add: patch_order_status_def items_of_order_def)
qed

lemma patch_order_status_ids:
  "order_ids (fst (patch_order_status d oid' st)) = order_ids d"
  by (auto simp: patch_order_status_def order_ids_def set_status_def split: option.splits)

lemma put_product_orders: "orders (fst (put_product d pid rq)) = orders d"
  by (auto simp: put_product_def Let_def split: option.splits)

lemma place_order_orders:
  "orders (fst (place_order sch oid' now d rq)) = orders d \<or>
   (oid' \<notin> set (order_ids d) \<and>
    (\<exists>its. orders (fst (place_order sch oid' now d rq)) =
       orders d @ [\<lparr>o_row = new_order_row oid' now rq, o_items = its\<rparr>]))"
proof (cases "status (snd (place_order sch oid' now d rq)) = 201")
  case True
  obtain d' r where pr: "place_order sch oid' now d rq = (d', r)"
    by (cases "place_order sch oid' now d rq")
  with True have ok: "status r = 201" by simp
  from place_order_success [OF pr ok] place_order_order_ids(2) [OF pr ok] pr
  show ?thesis by auto
next
  case False
  then show ?thesis by (simp add: place_order_failure_keeps_db)
qed

lemma place_order_mobile_orders:
  "orders (fst (place_order_mobile sch oid' now d rq)) = orders d \<or>
   (oid' \<notin> set (order_ids d) \<and>
    (\<exists>its. orders (fst (place_order_mobile sch oid' now d rq)) =
       orders d @ [\<lparr>o_row = new_order_row oid' now rq, o_items = its\<rparr>]))"
  by (auto simp: place_order_mobile_def order_create_def order_ids_def new_order_row_def
      split: option.splits)

lemma appended_order_keeps_items:
  assumes "oid \<in> set (order_ids d)"
    and "orders d' = orders d \<or>
      (oid' \<notin> set (order_ids d) \<and> (\<exists>its. orders d' = orders d @ [\<lparr>o_row = new_order_row oid' now rq, o_items = its\<rparr>]))"
  shows "items_of_order d' oid = items_of_order d oid \<and> oid \<in> set (order_ids d')"
  using assms
  by (auto simp: items_of_order_def order_ids_def new_order_row_def)

lemma apply_write_items:
  assumes "oid \<in> set (order_ids d)"
  shows "items_of_order (apply_write sch d w) oid = items_of_order d oid \<and>
         oid \<in> set (order_ids (apply_write sch d w))"
proof (cases w)
  case (PutProduct pid rq)
  then show ?thesis
    using assms by (simp add: items_of_order_def order_ids_def put_product_orders)
next
  case (PatchStatus oid' st)
  then show ?thesis
    using assms by (simp add: patch_order_status_items patch_order_status_ids)
next
  case (PlaceOrder oid' now rq)
  then show ?thesis
    using appended_order_keeps_items [OF assms place_order_orders] by simp
next
  case (PlaceOrderMobile oid' now rq)
  then show ?thesis
    using appended_order_keeps_items [OF assms place_order_mobile_orders] by simp
qed

lemma apply_writes_items:
  "oid \<in> set (order_ids d) \<Longrightarrow>
   items_of_order (apply_writes sch d ws) oid = items_of_order d oid"
  unfolding apply_writes_def
proof (induction ws arbitrary: d)
  case Nil
  then show ?case by simp
next
  case (Cons w ws)
  from apply_write_items [OF Cons.prems, of sch w]
  have a: "items_of_order (apply_write sch d w) oid = items_of_order d oid"
    and b: "oid \<in> set (order_ids (apply_write sch d w))" by simp_all
  from Cons.IH [OF b] a show ?case by simp
qed

text \<open>
  C5. After a successful \<^verbatim>\<open>POST /orders\<close> the stored order has exactly one line item
  per item of the request, in the request's order, and each holds the price, name,
  image, quantity and product id the caller sent: \<open>line_item\<close> reads the request and
  never the product table. No later write changes them: after any run of catalog
  edits (\<^verbatim>\<open>PUT /products/:id\<close>), status updates and further checkouts, the order still
  has the same line items.
\<close>

theorem place_order_snapshot:
  assumes "place_order sch oid now d rq = (d', r)" and "status r = 201"
  shows "\<exists>its. items rq = Some its \<and>
     items_of_order d' oid = [map line_item its] \<and>
     length (map line_item its) = length its \<and>
     (\<forall>k < length its.
        oi_price (map line_item its ! k) = i_price (its ! k) \<and>
        oi_name (map line_item its ! k) = i_name (its ! k) \<and>
        oi_image (map line_item its ! k) = i_image (its ! k) \<and>
        oi_quantity (map line_item its ! k) = i_quantity (its ! k) \<and>
        oi_productId (map line_item its ! k) = i_id (its ! k)) \<and>
     (\<forall>ws. items_of_order (apply_writes sch d' ws) oid = [map line_item its])"
proof -
  from place_order_success [OF assms] obtain its where
    its: "items rq = Some its"
    and d': "d' = d\<lparr>orders := orders d @ [\<lparr>o_row = new_order_row oid now rq, o_items = map line_item its\<rparr>],
            products := (\<lambda>pid. map_option (sell (ordered_qty its pid)) (products d pid))\<rparr>"
    by blast
  from place_order_order_ids [OF assms]
  have ids: "order_ids d' = order_ids d @ [oid]" and new: "oid \<notin> set (order_ids d)" .
  from new have "filter (\<lambda>x. o_id (o_row x) = oid) (orders d) = []"
    by (auto simp: order_ids_def filter_empty_conv)
  then have now: "items_of_order d' oid = [map line_item its]"
    by (simp add: items_of_order_def d' new_order_row_def)
  from ids have "oid \<in> set (order_ids d')" by simp
  then have later: "items_of_order (apply_writes sch d' ws) oid = [map line_item its]" for ws
    using now by (simp add: apply_writes_items)
  have fields: "\<forall>k < length its.
        oi_price (map line_item its ! k) = i_price (its ! k) \<and>
        oi_name (map line_item its ! k) = i_name (its ! k) \<and>
        oi_image (map line_item its ! k) = i_image (its ! k) \<and>
        oi_quantity (map line_item its ! k) = i_quantity (its ! k) \<and>
        oi_productId (map line_item its ! k) = i_id (its ! k)"
    by (simp add: line_item_def)
  from its now later fields show ?thesis by simp
qed

theorem place_order_snapshot_witness:
  "status (snd (place_order all_fks ''o1'' 7 db0 (checkout (Some [old_item])))) = 201 \<and>
   map_option p_price (products db0 ''X'') = Some (Price 10) \<and>
   map_option p_price (products (apply_writes all_fks
        (fst (place_order all_fks ''o1'' 7 db0 (checkout (Some [old_item]))))
        [PutProduct ''X'' new_listing, PatchStatus ''o1'' (Some ''Enviando'')]) ''X'') = Some (Price 99) \<and>
   items_of_order (apply_writes all_fks
        (fst (place_order all_fks ''o1'' 7 db0 (checkout (Some [old_item]))))
        [PutProduct ''X'' new_listing, PatchStatus ''o1'' (Some ''Enviando'')]) ''o1'' =
     [[\<lparr>oi_productId = ''X'', oi_name = ''Old name'', oi_quantity = 1, oi_price = 8,
        oi_image = ''old''\<rparr>]]"
proof -
  let ?rq = "checkout (Some [old_item])"
  let ?ws = "[PutProduct ''X'' new_listing, PatchStatus ''o1'' (Some ''Enviando'')]"
  obtain d' r where pr: "place_order all_fks ''o1'' 7 db0 ?rq = (d', r)"
    by (cases "place_order all_fks ''o1'' 7 db0 ?rq")
  have ok: "status r = 201" using pr by (auto simp: eval_defs old_item_def)
  from place_order_snapshot [OF pr ok] obtain its where
    its: "items ?rq = Some its"
    and later: "\<forall>ws. items_of_order (apply_writes all_fks d' ws) ''o1'' = [map line_item its]"
    by blast
  from its have "its = [old_item]" by (simp add: checkout_def)
  with later have a: "items_of_order (apply_writes all_fks d' ?ws) ''o1'' =
     [[\<lparr>oi_productId = ''X'', oi_name = ''Old name'', oi_quantity = 1, oi_price = 8,
        oi_image = ''old''\<rparr>]]"
    by (simp add: line_item_def old_item_def)
  have b: "map_option p_price (products db0 ''X'') = Some (Price 10)"
    by (simp add: db0_def product_x_def)
  have c: "map_option p_price (products (apply_writes all_fks
        (fst (place_order all_fks ''o1'' 7 db0 ?rq)) ?ws) ''X'') = Some (Price 99)"
    by (simp add: eval_defs old_item_def apply_writes_def put_product_def new_listing_def
        patch_order_status_def or_keep_def set_status_def Let_def)
  from pr ok a b c show ?thesis by simp
qed

section \<open>One primary address per user\<close>

lemma primary_of_absent:
  "u \<notin> set (map a_userId rows) \<Longrightarrow> primary_of u rows = []"
  by (auto simp: primary_of_def filter_empty_conv)

lemma one_primary_iff:
  "one_primary rows \<longleftrightarrow> (\<forall>u. length (primary_of u rows) \<le> 1)"
proof
  assume inv: "one_primary rows"
  show "\<forall>u. length (primary_of u rows) \<le> 1"
  proof
    fix u
    show "length (primary_of u rows) \<le> 1"
    proof (cases "u \<in> set (map a_userId rows)")
      case True
      with inv show ?thesis unfolding one_primary_def by blast
    next
      case False
      then show ?thesis by (simp add: primary_of_absent)
    qed
  qed
next
  assume "\<forall>u. length (primary_of u rows) \<le> 1"
  then show "one_primary rows" by (simp add: one_primary_def)
qed

lemma clear_primary_Nil [simp]: "clear_primary uo [] = []"
  by (simp add: clear_primary_def)

lemma clear_primary_Cons [simp]:
  "clear_primary uo (a # rows) =
     (if uo = None \<or> uo = Some (a_userId a) then a\<lparr>a_isPrimary := False\<rparr> else a)
       # clear_primary uo rows"
  by (cases uo) (auto simp: clear_primary_def)

lemma primary_of_Nil [simp]: "primary_of u [] = []"
  by (simp add: primary_of_def)

lemma primary_of_Cons [simp]:
  "primary_of u (a # rows) =
     (if a_userId a = u \<and> a_isPrimary a then a # primary_of u rows else primary_of u rows)"
  by (simp add: primary_of_def)

lemma primary_of_clear:
  "primary_of u (clear_primary uo rows) =
     (if uo = None \<or> uo = Some u then [] else primary_of u rows)"
  by (induction rows) auto

lemma primary_of_append:
  "primary_of u (rows @ [a]) =
     primary_of u rows @ (if a_userId a = u \<and> a_isPrimary a then [a] else [])"
  by (simp add: primary_of_def)

lemma one_primary_clear:
  "one_primary rows \<Longrightarrow> one_primary (clear_primary uo rows)"
  by (simp add: one_primary_iff primary_of_clear)

lemma clear_primary_ids [simp]: "map a_id (clear_primary uo rows) = map a_id rows"
  by (induction rows) simp_all

lemma clear_primary_owners [simp]: "map a_userId (clear_primary uo rows) = map a_userId rows"
  by (induction rows) simp_all

lemma length_filter_map_le:
  "(\<And>x. x \<in> set xs \<Longrightarrow> P (f x) \<Longrightarrow> P x) \<Longrightarrow>
   length (filter P (map f xs)) \<le> length (filter P xs)"
  by (induction xs) auto

lemma length_filter_le:
  "(\<And>x. x \<in> set xs \<Longrightarrow> P x \<Longrightarrow> Q x) \<Longrightarrow> length (filter P xs) \<le> length (filter Q xs)"
  by (induction xs) auto

lemma distinct_key_once:
  "distinct (map a_id rows) \<Longrightarrow> length (filter (\<lambda>a. a_id a = i) rows) \<le> 1"
proof (induction rows)
  case Nil
  then show ?case by simp
next
  case (Cons a rows)
  show ?case
  proof (cases "a_id a = i")
    case True
    with Cons.prems have "i \<notin> a_id ` set rows" by simp
    then have "filter (\<lambda>x. a_id x = i) rows = []"
      unfolding filter_empty_conv by blast
    with True show ?thesis by simp
  next
    case False
    with Cons show ?thesis by simp
  qed
qed

lemma apply_address_update_keeps [simp]:
  "a_id (apply_address_update rq a) = a_id a"
  "a_userId (apply_address_update rq a) = a_userId a"
  by (simp_all add: apply_address_update_def)

subsection \<open>POST /addresses\<close>

lemma address_create_row:
  "address_create d aid rq = Inr (d2, a) \<Longrightarrow>
   ar_userId rq = Some (a_userId a) \<and> a_id a = aid \<and> a_isPrimary a = truthy (ar_isPrimary rq) \<and>
   aid \<notin> set (map a_id (addresses d)) \<and> a_userId a \<in> set (map u_id (users d)) \<and>
   d2 = d\<lparr>addresses := addresses d @ [a]\<rparr>"
  by (auto simp: address_create_def Let_def split: option.splits if_splits)

lemma post_addresses_cases:
  "addresses (fst (post_addresses aid d rq)) =
     (let rows = (if truthy (ar_isPrimary rq) then clear_primary (ar_userId rq) (addresses d)
                  else addresses d)
      in case address_create (d\<lparr>addresses := rows\<rparr>) aid rq of
           Inl e \<Rightarrow> rows
         | Inr (d2, a) \<Rightarrow> rows @ [a])"
proof -
  let ?rows = "if truthy (ar_isPrimary rq) then clear_primary (ar_userId rq) (addresses d)
               else addresses d"
  let ?d1 = "d\<lparr>addresses := ?rows\<rparr>"
  have d1: "(if truthy (ar_isPrimary rq)
                then d\<lparr>addresses := clear_primary (ar_userId rq) (addresses d)\<rparr>
                else d) = ?d1"
    by simp
  have rows: "addresses ?d1 = ?rows" by simp
  show ?thesis
  proof (cases "address_create ?d1 aid rq")
    case (Inl e)
    then show ?thesis
      unfolding post_addresses_def Let_def d1 by (simp only: sum.case fst_conv rows)
  next
    case (Inr x)
    obtain d2 a where x: "x = (d2, a)" by (cases x)
    from address_create_row [OF Inr [unfolded x]]
    have "d2 = ?d1\<lparr>addresses := addresses ?d1 @ [a]\<rparr>" by blast
    then have "addresses d2 = ?rows @ [a]" by simp
    with Inr x show ?thesis
      unfolding post_addresses_def Let_def d1 by (simp only: sum.case prod.case fst_conv)
  qed
qed

lemma post_addresses_inv:
  assumes "one_primary (addresses d)"
  shows "one_primary (addresses (fst (post_addresses aid d rq)))"
proof -
  let ?rows = "if truthy (ar_isPrimary rq) then clear_primary (ar_userId rq) (addresses d)
               else addresses d"
  have rows: "one_primary ?rows" using assms by (simp add: one_primary_clear)
  show ?thesis
  proof (cases "address_create (d\<lparr>addresses := ?rows\<rparr>) aid rq")
    case (Inl e)
    with rows show ?thesis by (simp add: post_addresses_cases)
  next
    case (Inr x)
    obtain d2 a where x: "x = (d2, a)" by (cases x)
    from address_create_row [OF Inr [unfolded x]]
    have owner: "ar_userId rq = Some (a_userId a)"
      and prim: "a_isPrimary a = truthy (ar_isPrimary rq)" by blast+
    have after: "addresses (fst (post_addresses aid d rq)) = ?rows @ [a]"
      using Inr x by (simp add: post_addresses_cases)
    from assms have old: "length (primary_of u (addresses d)) \<le> 1" for u
      by (simp add: one_primary_iff)
    have "length (primary_of u (?rows @ [a])) \<le> 1" for u
    proof (cases "truthy (ar_isPrimary rq)")
      case True
      then show ?thesis
        using old [of u] by (simp add: primary_of_append primary_of_clear owner)
    next
      case False
      then show ?thesis
        using old [of u] by (simp add: primary_of_append prim)
    qed
    with after show ?thesis by (simp add: one_primary_iff)
  qed
qed

lemma post_addresses_marks_one:
  assumes "truthy (ar_isPrimary rq)" and "status (snd (post_addresses aid d rq)) = 201"
  shows "\<exists>u a. ar_userId rq = Some u \<and> a_id a = aid \<and> a_isPrimary a \<and>
           primary_of u (addresses (fst (post_addresses aid d rq))) = [a]"
proof -
  let ?rows = "clear_primary (ar_userId rq) (addresses d)"
  from assms obtain d2 a where
    c: "address_create (d\<lparr>addresses := ?rows\<rparr>) aid rq = Inr (d2, a)"
    by (cases "address_create (d\<lparr>addresses := ?rows\<rparr>) aid rq")
      (auto simp: post_addresses_def address_error_def)
  from address_create_row [OF c]
  have owner: "ar_userId rq = Some (a_userId a)" and key: "a_id a = aid"
    and prim: "a_isPrimary a = truthy (ar_isPrimary rq)" by blast+
  from c assms(1) have after: "addresses (fst (post_addresses aid d rq)) = ?rows @ [a]"
    by (simp add: post_addresses_cases)
  have "primary_of (a_userId a) (?rows @ [a]) = [a]"
    using assms(1) by (simp add: primary_of_append primary_of_clear owner prim)
  with owner key prim assms(1) after show ?thesis by auto
qed

lemma post_addresses_marks_none:
  assumes "\<not> truthy (ar_isPrimary rq)"
  shows "primary_of u (addresses (fst (post_addresses aid d rq))) = primary_of u (addresses d)"
proof (cases "address_create d aid rq")
  case (Inl e)
  with assms show ?thesis by (simp add: post_addresses_cases)
next
  case (Inr x)
  obtain d2 a where x: "x = (d2, a)" by (cases x)
  from address_create_row [OF Inr [unfolded x]]
  have "a_isPrimary a = truthy (ar_isPrimary rq)" by blast
  with assms Inr x show ?thesis
    by (simp add: post_addresses_cases primary_of_append)
qed

lemma clear_primary_set:
  "x \<in> set (clear_primary uo rows) \<Longrightarrow>
   \<exists>y \<in> set rows. x = (if (case uo of None \<Rightarrow> True | Some u \<Rightarrow> a_userId y = u)
                          then y\<lparr>a_isPrimary := False\<rparr> else y)"
  unfolding clear_primary_def set_map by (erule imageE) (rule bexI)

lemma clear_primary_row:
  assumes "x \<in> set (clear_primary uo rows)"
  shows "\<exists>y \<in> set rows. a_id y = a_id x \<and> a_userId y = a_userId x \<and>
     (a_isPrimary x \<longrightarrow> a_isPrimary y \<and> uo \<noteq> None \<and> uo \<noteq> Some (a_userId x))"
proof -
  from clear_primary_set [OF assms] obtain y where y: "y \<in> set rows"
    and x: "x = (if (case uo of None \<Rightarrow> True | Some u \<Rightarrow> a_userId y = u)
                 then y\<lparr>a_isPrimary := False\<rparr> else y)" by blast
  show ?thesis
  proof (cases "case uo of None \<Rightarrow> True | Some u \<Rightarrow> a_userId y = u")
    case True
    with x have "x = y\<lparr>a_isPrimary := False\<rparr>" by simp
    then have "a_id y = a_id x" "a_userId y = a_userId x" "\<not> a_isPrimary x" by simp_all
    with y show ?thesis by blast
  next
    case False
    with x have xy: "x = y" by simp
    from False have "uo \<noteq> None \<and> uo \<noteq> Some (a_userId y)"
      by (cases uo) simp_all
    with xy y show ?thesis by blast
  qed
qed

lemma address_update_Inr:
  assumes "address_update d pid rq = Inr (d2, a)"
  shows "\<forall>t. ar_isPrimary rq \<noteq> JOther t"
    and "addresses d2 =
           map (\<lambda>x. if a_id x = pid then apply_address_update rq x else x) (addresses d)"
    and "\<exists>x \<in> set (addresses d). a_id x = pid \<and> a = apply_address_update rq x"
proof -
  show no: "\<forall>t. ar_isPrimary rq \<noteq> JOther t"
  proof (intro allI notI)
    fix t assume "ar_isPrimary rq = JOther t"
    with assms show False by (simp add: address_update_def)
  qed
  then have body: "address_update d pid rq =
     (case find (\<lambda>a. a_id a = pid) (addresses d) of
        None \<Rightarrow> Inl RecordNotFound
      | Some a \<Rightarrow>
          Inr (d\<lparr>addresses :=
                   map (\<lambda>x. if a_id x = pid then apply_address_update rq x else x)
                     (addresses d)\<rparr>,
               apply_address_update rq a))"
  proof (cases "ar_isPrimary rq")
    case (JOther t)
    with no show ?thesis by blast
  qed (simp_all add: address_update_def)
  show "addresses d2 =
           map (\<lambda>x. if a_id x = pid then apply_address_update rq x else x) (addresses d)"
    and "\<exists>x \<in> set (addresses d). a_id x = pid \<and> a = apply_address_update rq x"
  proof -
    from assms body obtain x where f: "find (\<lambda>a. a_id a = pid) (addresses d) = Some x"
      and r: "Inr (d\<lparr>addresses :=
                   map (\<lambda>x. if a_id x = pid then apply_address_update rq x else x)
                     (addresses d)\<rparr>,
               apply_address_update rq x) = (Inr (d2, a) :: error + db \<times> address)"
      by (cases "find (\<lambda>a. a_id a = pid) (addresses d)") simp_all
    from r have d2: "d2 = d\<lparr>addresses :=
                   map (\<lambda>x. if a_id x = pid then apply_address_update rq x else x)
                     (addresses d)\<rparr>" and a: "a = apply_address_update rq x"
      by simp_all
    from d2 show "addresses d2 =
           map (\<lambda>x. if a_id x = pid then apply_address_update rq x else x) (addresses d)"
      by simp
    from f have "x \<in> set (addresses d) \<and> a_id x = pid"
      unfolding find_Some_iff by (metis nth_mem)
    with a show "\<exists>x \<in> set (addresses d). a_id x = pid \<and> a = apply_address_update rq x"
      by blast
  qed
qed

lemma apply_address_update_primary:
  "a_isPrimary (apply_address_update rq a) =
     (case ar_isPrimary rq of JBool b \<Rightarrow> b | _ \<Rightarrow> a_isPrimary a)"
  by (simp add: apply_address_update_def)

lemma put_addresses_cases:
  "addresses (fst (put_addresses d pid rq)) =
     (let rows = (if truthy (ar_isPrimary rq) then clear_primary (ar_userId rq) (addresses d)
                  else addresses d)
      in case address_update (d\<lparr>addresses := rows\<rparr>) pid rq of
           Inl e \<Rightarrow> rows
         | Inr (d2, a) \<Rightarrow>
             map (\<lambda>x. if a_id x = pid then apply_address_update rq x else x) rows)"
proof -
  let ?rows = "if truthy (ar_isPrimary rq) then clear_primary (ar_userId rq) (addresses d)
               else addresses d"
  let ?d1 = "d\<lparr>addresses := ?rows\<rparr>"
  have d1: "(if truthy (ar_isPrimary rq)
                then d\<lparr>addresses := clear_primary (ar_userId rq) (addresses d)\<rparr>
                else d) = ?d1"
    by simp
  have rows: "addresses ?d1 = ?rows" by simp
  show ?thesis
  proof (cases "address_update ?d1 pid rq")
    case (Inl e)
    then show ?thesis
      unfolding put_addresses_def Let_def d1 by (simp only: sum.case fst_conv rows)
  next
    case (Inr x)
    obtain d2 a where x: "x = (d2, a)" by (cases x)
    from address_update_Inr(2) [OF Inr [unfolded x]] rows
    have "addresses d2 =
       map (\<lambda>x. if a_id x = pid then apply_address_update rq x else x) ?rows"
      by simp
    with Inr x show ?thesis
      unfolding put_addresses_def Let_def d1 by (simp only: sum.case prod.case fst_conv)
  qed
qed

lemma updated_rows_primary:
  assumes inv: "one_primary (addresses d)" and pk: "distinct (map a_id (addresses d))"
    and owner: "ar_isPrimary rq = JBool True \<longrightarrow>
       (\<forall>a \<in> set (addresses d). a_id a = pid \<longrightarrow> ar_userId rq = Some (a_userId a))"
    and notother: "\<forall>t. ar_isPrimary rq \<noteq> JOther t"
  shows "length (primary_of u
     (map (\<lambda>x. if a_id x = pid then apply_address_update rq x else x)
        (if truthy (ar_isPrimary rq) then clear_primary (ar_userId rq) (addresses d)
         else addresses d))) \<le> 1"
proof -
  let ?g = "\<lambda>x. if a_id x = pid then apply_address_update rq x else x"
  let ?P = "\<lambda>a. a_userId a = u \<and> a_isPrimary a"
  from inv have old: "length (primary_of u (addresses d)) \<le> 1"
    by (simp add: one_primary_iff)
  show ?thesis
  proof (cases "ar_isPrimary rq = JBool True")
    case False
    with notother have flag: "ar_isPrimary rq = Absent \<or> ar_isPrimary rq = JBool False"
      by (cases "ar_isPrimary rq") auto
    then have nt: "\<not> truthy (ar_isPrimary rq)" by auto
    have "?P (?g x) \<Longrightarrow> ?P x" for x
    proof (cases "a_id x = pid")
      case True
      from flag have "a_isPrimary (apply_address_update rq x) \<longrightarrow> a_isPrimary x"
        by (rule disjE) (simp_all add: apply_address_update_primary)
      with True show "?P (?g x) \<Longrightarrow> ?P x" by simp
    next
      case False
      then show "?P (?g x) \<Longrightarrow> ?P x" by simp
    qed
    then have "length (filter ?P (map ?g (addresses d))) \<le> length (filter ?P (addresses d))"
      by (intro length_filter_map_le) blast
    with old nt show ?thesis by (simp add: primary_of_def)
  next
    case True
    let ?rows = "clear_primary (ar_userId rq) (addresses d)"
    from True have t: "truthy (ar_isPrimary rq)" by simp
    have ids: "distinct (map a_id (map ?g ?rows))"
    proof -
      have "map a_id (map ?g ?rows) = map a_id ?rows"
        by (simp add: o_def if_distrib [of a_id] cong: if_cong)
      with pk show ?thesis by simp
    qed
    show ?thesis
    proof (cases "ar_userId rq = None \<or> ar_userId rq = Some u")
      case True
      have "a_id x = pid" if "x \<in> set (map ?g ?rows)" and "?P x" for x
      proof -
        from that(1) obtain y where y: "y \<in> set ?rows" and x: "x = ?g y" by auto
        show ?thesis
        proof (rule ccontr)
          assume ne: "a_id x \<noteq> pid"
          with x have "x = y" by (cases "a_id y = pid") simp_all
          with y clear_primary_row [of y "ar_userId rq" "addresses d"] that(2)
          have "ar_userId rq \<noteq> None \<and> ar_userId rq \<noteq> Some u" by blast
          with True show False by blast
        qed
      qed
      then have "length (filter ?P (map ?g ?rows)) \<le>
                 length (filter (\<lambda>a. a_id a = pid) (map ?g ?rows))"
        by (intro length_filter_le) blast
      also have "\<dots> \<le> 1" using ids by (rule distinct_key_once)
      finally show ?thesis using t by (simp add: primary_of_def)
    next
      case False
      then obtain v where v: "ar_userId rq = Some v" and vu: "v \<noteq> u" by auto
      have "?P (?g x) \<Longrightarrow> ?P x" if "x \<in> set ?rows" for x
      proof (cases "a_id x = pid")
        case True
        from clear_primary_row [OF that] obtain y where
          "y \<in> set (addresses d)" "a_id y = a_id x" "a_userId y = a_userId x" by blast
        with owner \<open>ar_isPrimary rq = JBool True\<close> True v
        have "Some v = Some (a_userId x)" by metis
        with vu True show "?P (?g x) \<Longrightarrow> ?P x" by simp
      next
        case False
        then show "?P (?g x) \<Longrightarrow> ?P x" by simp
      qed
      then have "length (filter ?P (map ?g ?rows)) \<le> length (filter ?P ?rows)"
        by (intro length_filter_map_le) blast
      also have "\<dots> \<le> 1"
        using old v vu primary_of_clear [of u "ar_userId rq" "addresses d"]
        by (simp add: primary_of_def)
      finally show ?thesis using t by (simp add: primary_of_def)
    qed
  qed
qed

lemma put_addresses_inv:
  assumes inv: "one_primary (addresses d)" and pk: "distinct (map a_id (addresses d))"
    and owner: "ar_isPrimary rq = JBool True \<longrightarrow>
       (\<forall>a \<in> set (addresses d). a_id a = pid \<longrightarrow> ar_userId rq = Some (a_userId a))"
  shows "one_primary (addresses (fst (put_addresses d pid rq)))"
proof -
  let ?rows = "if truthy (ar_isPrimary rq) then clear_primary (ar_userId rq) (addresses d)
               else addresses d"
  have rows: "one_primary ?rows" using inv by (simp add: one_primary_clear)
  show ?thesis
  proof (cases "address_update (d\<lparr>addresses := ?rows\<rparr>) pid rq")
    case (Inl e)
    with rows show ?thesis by (simp add: put_addresses_cases)
  next
    case (Inr x)
    obtain d2 a where x: "x = (d2, a)" by (cases x)
    from address_update_Inr(1) [OF Inr [unfolded x]]
    have no: "\<forall>t. ar_isPrimary rq \<noteq> JOther t" .
    have after: "addresses (fst (put_addresses d pid rq)) =
       map (\<lambda>x. if a_id x = pid then apply_address_update rq x else x) ?rows"
      using Inr x by (simp add: put_addresses_cases)
    from updated_rows_primary [OF inv pk owner no] after show ?thesis
      by (simp add: one_primary_iff)
  qed
qed

lemma short_list_member: "length xs \<le> 1 \<Longrightarrow> z \<in> set xs \<Longrightarrow> xs = [z]"
  by (cases xs) auto

lemma put_addresses_failure:
  "address_update
     (d\<lparr>addresses := (if truthy (ar_isPrimary rq)
                        then clear_primary (ar_userId rq) (addresses d) else addresses d)\<rparr>)
     pid rq = Inl e \<Longrightarrow>
   status (snd (put_addresses d pid rq)) = 500"
proof -
  let ?rows = "if truthy (ar_isPrimary rq) then clear_primary (ar_userId rq) (addresses d)
               else addresses d"
  have d1: "(if truthy (ar_isPrimary rq)
                then d\<lparr>addresses := clear_primary (ar_userId rq) (addresses d)\<rparr>
                else d) = d\<lparr>addresses := ?rows\<rparr>"
    by simp
  assume "address_update (d\<lparr>addresses := ?rows\<rparr>) pid rq = Inl e"
  then show ?thesis
    unfolding put_addresses_def Let_def d1
    by (simp add: address_error_def)
qed

lemma put_addresses_marks_one:
  assumes inv: "one_primary (addresses d)" and pk: "distinct (map a_id (addresses d))"
    and flag: "ar_isPrimary rq = JBool True"
    and owner: "\<forall>a \<in> set (addresses d). a_id a = pid \<longrightarrow> ar_userId rq = Some (a_userId a)"
    and ok: "status (snd (put_addresses d pid rq)) = 200"
  shows "\<exists>u. ar_userId rq = Some u \<and>
           map a_id (primary_of u (addresses (fst (put_addresses d pid rq)))) = [pid]"
proof -
  let ?g = "\<lambda>x. if a_id x = pid then apply_address_update rq x else x"
  let ?rows = "if truthy (ar_isPrimary rq) then clear_primary (ar_userId rq) (addresses d)
               else addresses d"
  from flag have rows: "?rows = clear_primary (ar_userId rq) (addresses d)" by simp
  obtain d2 a where upd: "address_update (d\<lparr>addresses := ?rows\<rparr>) pid rq = Inr (d2, a)"
  proof (cases "address_update (d\<lparr>addresses := ?rows\<rparr>) pid rq")
    case (Inl e)
    from put_addresses_failure [OF this] ok show ?thesis by simp
  next
    case (Inr x)
    with that show ?thesis by (cases x) blast
  qed
  have after: "addresses (fst (put_addresses d pid rq)) = map ?g ?rows"
    using upd by (simp add: put_addresses_cases)
  from address_update_Inr(1) [OF upd] have no: "\<forall>t. ar_isPrimary rq \<noteq> JOther t" .
  from address_update_Inr(3) [OF upd] obtain x where
    x: "x \<in> set ?rows" and xid: "a_id x = pid" by auto
  from x rows have "x \<in> set (clear_primary (ar_userId rq) (addresses d))" by simp
  from clear_primary_row [OF this] obtain y where
    "y \<in> set (addresses d)" "a_id y = a_id x" "a_userId y = a_userId x" by blast
  with owner xid have uo: "ar_userId rq = Some (a_userId x)" by metis
  have "?g x \<in> set (map ?g ?rows)" using x by (rule imageI [of x "set ?rows" ?g, folded set_map])
  moreover have "a_userId (?g x) = a_userId x" by simp
  moreover have "a_isPrimary (?g x)"
    using xid flag by (simp add: apply_address_update_primary)
  ultimately have mem: "?g x \<in> set (primary_of (a_userId x) (map ?g ?rows))"
    unfolding primary_of_def by simp
  from flag owner have own': "ar_isPrimary rq = JBool True \<longrightarrow>
       (\<forall>a \<in> set (addresses d). a_id a = pid \<longrightarrow> ar_userId rq = Some (a_userId a))"
    by blast
  from updated_rows_primary [OF inv pk own' no, of "a_userId x"]
  have "length (primary_of (a_userId x) (map ?g ?rows)) \<le> 1" .
  from short_list_member [OF this mem]
  have "map a_id (primary_of (a_userId x) (map ?g ?rows)) = [a_id (?g x)]" by simp
  also have "a_id (?g x) = pid" using xid by simp
  finally show ?thesis using uo after by simp
qed

lemma put_addresses_marks_none:
  assumes "\<not> truthy (ar_isPrimary rq)"
  shows "set (map a_id (filter a_isPrimary (addresses (fst (put_addresses d pid rq))))) \<subseteq>
         set (map a_id (filter a_isPrimary (addresses d)))"
proof (cases "address_update (d\<lparr>addresses := addresses d\<rparr>) pid rq")
  case (Inl e)
  with assms show ?thesis by (simp add: put_addresses_cases)
next
  case (Inr r)
  let ?g = "\<lambda>x. if a_id x = pid then apply_address_update rq x else x"
  obtain d2 a where r: "r = (d2, a)" by (cases r)
  from address_update_Inr(1) [OF Inr [unfolded r]] assms
  have flag: "ar_isPrimary rq = Absent \<or> ar_isPrimary rq = JBool False"
    by (cases "ar_isPrimary rq") auto
  have keep: "a_isPrimary (?g x) \<Longrightarrow> a_isPrimary x" for x
  proof (cases "a_id x = pid")
    case True
    from flag have "a_isPrimary (apply_address_update rq x) \<longrightarrow> a_isPrimary x"
      by (rule disjE) (simp_all add: apply_address_update_primary)
    with True show "a_isPrimary (?g x) \<Longrightarrow> a_isPrimary x" by simp
  next
    case False
    then show "a_isPrimary (?g x) \<Longrightarrow> a_isPrimary x" by simp
  qed
  have after: "addresses (fst (put_addresses d pid rq)) = map ?g (addresses d)"
    using Inr r assms by (simp add: put_addresses_cases)
  show ?thesis
  proof
    fix i
    assume "i \<in> set (map a_id (filter a_isPrimary (addresses (fst (put_addresses d pid rq)))))"
    with after obtain x where x: "x \<in> set (addresses d)" and p: "a_isPrimary (?g x)"
      and i: "i = a_id (?g x)" by auto
    have "a_id (?g x) = a_id x" by simp
    with keep [OF p] x i show "i \<in> set (map a_id (filter a_isPrimary (addresses d)))"
      by auto
  qed
qed

subsection \<open>POST /auth/register\<close>

lemma user_create_Inr:
  assumes "user_create d uid aid sid ud ad sd = Inr (d', u, sh)"
  shows "uid \<notin> set (map u_id (users d))"
    and "\<exists>adr. addresses d' = addresses d @ [adr] \<and> a_id adr = aid \<and>
           a_userId adr = uid \<and> a_isPrimary adr"
    and "users d' = users d @ [u] \<and> u_id u = uid"
proof -
  from assms obtain a where ad: "ad = Some a"
    by (cases ad) (simp_all add: user_create_def)
  let ?taken = "uid \<in> set (map u_id (users d)) \<or> ud_email ud \<in> set (map u_email (users d)) \<or>
             aid \<in> set (map a_id (addresses d)) \<or>
             (sd \<noteq> None \<and> sid \<in> set (map s_id (shops d)))"
  from assms ad have free: "\<not> ?taken"
    by (cases ?taken) (simp_all add: user_create_def)
  then show "uid \<notin> set (map u_id (users d))" by blast
  from assms [unfolded user_create_def ad option.case if_not_P [OF free] Let_def] have eq:
    "d' = d\<lparr>users := users d @ [u],
            addresses := addresses d @
              [\<lparr>a_id = aid, a_userId = uid, a_zipCode = ad_cep a,
                a_street = ad_street a, a_number = ad_number a,
                a_complement = ad_complement a,
                a_neighborhood = ad_neighborhood a, a_city = ad_city a,
                a_state = ad_state a, a_isPrimary = True\<rparr>],
            shops := shops d @ (case sh of None \<Rightarrow> [] | Some s \<Rightarrow> [s])\<rparr>"
    and u: "u_id u = uid"
    by auto
  from eq show "\<exists>adr. addresses d' = addresses d @ [adr] \<and> a_id adr = aid \<and>
           a_userId adr = uid \<and> a_isPrimary adr"
    by simp
  from eq u show "users d' = users d @ [u] \<and> u_id u = uid" by simp
qed

lemma register_cases:
  "fst (register uid aid sid d rq) = d \<and> status (snd (register uid aid sid d rq)) = 400 \<or>
   (\<exists>ud d' u sh. userData rq = Some ud \<and>
      user_create d uid aid sid ud (addressData rq) (shopData rq) = Inr (d', u, sh) \<and>
      fst (register uid aid sid d rq) = d' \<and> status (snd (register uid aid sid d rq)) = 201)"
proof (cases "userData rq")
  case None
  then show ?thesis by (simp add: register_def missing_user_data_def)
next
  case (Some ud)
  show ?thesis
  proof (cases "or_default (ud_name ud) [] = []")
    case True
    with Some show ?thesis by (simp add: register_def missing_user_data_def)
  next
    case False
    show ?thesis
    proof (cases "user_create d uid aid sid ud (addressData rq) (shopData rq)")
      case (Inl e)
      with Some False show ?thesis by (simp add: register_def register_failed_def)
    next
      case (Inr r)
      obtain d' u sh where "r = (d', u, sh)" by (cases r)
      with Inr Some False show ?thesis by (simp add: register_def)
    qed
  qed
qed

lemma register_one_address:
  assumes wf: "addresses_wf d" and ok: "status (snd (register uid aid sid d rq)) = 201"
  shows "\<exists>a. filter (\<lambda>x. a_userId x = uid) (addresses (fst (register uid aid sid d rq))) = [a] \<and>
           a_id a = aid \<and> a_isPrimary a"
proof -
  from register_cases [of uid aid sid d rq] ok obtain ud d' u sh where
    uc: "user_create d uid aid sid ud (addressData rq) (shopData rq) = Inr (d', u, sh)"
    and d': "fst (register uid aid sid d rq) = d'" by auto
  from user_create_Inr [OF uc] obtain adr where
    new: "uid \<notin> set (map u_id (users d))"
    and rows: "addresses d' = addresses d @ [adr]"
    and adr: "a_id adr = aid" "a_userId adr = uid" "a_isPrimary adr" by blast
  from wf new have "\<forall>x \<in> set (addresses d). a_userId x \<noteq> uid"
    unfolding addresses_wf_def by metis
  then have "filter (\<lambda>x. a_userId x = uid) (addresses d) = []"
    unfolding filter_empty_conv by blast
  with rows adr d' show ?thesis by simp
qed

lemma register_inv:
  assumes inv: "one_primary (addresses d)" and wf: "addresses_wf d"
  shows "one_primary (addresses (fst (register uid aid sid d rq)))"
proof (cases "status (snd (register uid aid sid d rq)) = 201")
  case False
  with register_cases [of uid aid sid d rq] inv show ?thesis by auto
next
  case True
  from register_cases [of uid aid sid d rq] True obtain ud d' u sh where
    uc: "user_create d uid aid sid ud (addressData rq) (shopData rq) = Inr (d', u, sh)"
    and d': "fst (register uid aid sid d rq) = d'" by auto
  from user_create_Inr [OF uc] obtain adr where
    new: "uid \<notin> set (map u_id (users d))"
    and rows: "addresses d' = addresses d @ [adr]"
    and adr: "a_userId adr = uid" by blast
  from wf new have "uid \<notin> set (map a_userId (addresses d))"
    unfolding addresses_wf_def set_map by blast
  then have none: "primary_of uid (addresses d) = []" by (rule primary_of_absent)
  from inv have old: "length (primary_of v (addresses d)) \<le> 1" for v
    by (simp add: one_primary_iff)
  have "length (primary_of v (addresses d @ [adr])) \<le> 1" for v
    using old [of v] none adr by (cases "v = uid") (simp_all add: primary_of_append)
  with rows d' show ?thesis by (simp add: one_primary_iff)
qed

subsection \<open>Keys and owners stay well formed\<close>

lemma post_addresses_users: "users (fst (post_addresses aid d rq)) = users d"
proof -
  let ?rows = "if truthy (ar_isPrimary rq) then clear_primary (ar_userId rq) (addresses d)
               else addresses d"
  let ?d1 = "d\<lparr>addresses := ?rows\<rparr>"
  have d1: "(if truthy (ar_isPrimary rq)
                then d\<lparr>addresses := clear_primary (ar_userId rq) (addresses d)\<rparr>
                else d) = ?d1"
    by simp
  show ?thesis
  proof (cases "address_create ?d1 aid rq")
    case (Inl e)
    then show ?thesis
      unfolding post_addresses_def Let_def d1 by simp
  next
    case (Inr x)
    obtain d2 a where x: "x = (d2, a)" by (cases x)
    from address_create_row [OF Inr [unfolded x]]
    have "d2 = ?d1\<lparr>addresses := addresses ?d1 @ [a]\<rparr>" by blast
    then have "users d2 = users d" by simp
    with Inr x show ?thesis
      unfolding post_addresses_def Let_def d1 by simp
  qed
qed

lemma put_addresses_users: "users (fst (put_addresses d pid rq)) = users d"
proof -
  let ?rows = "if truthy (ar_isPrimary rq) then clear_primary (ar_userId rq) (addresses d)
               else addresses d"
  let ?d1 = "d\<lparr>addresses := ?rows\<rparr>"
  have d1: "(if truthy (ar_isPrimary rq)
                then d\<lparr>addresses := clear_primary (ar_userId rq) (addresses d)\<rparr>
                else d) = ?d1"
    by simp
  show ?thesis
  proof (cases "address_update ?d1 pid rq")
    case (Inl e)
    then show ?thesis
      unfolding put_addresses_def Let_def d1 by simp
  next
    case (Inr x)
    obtain d2 a where x: "x = (d2, a)" by (cases x)
    have "users d2 = users d"
    proof (cases "find (\<lambda>a. a_id a = pid) (addresses ?d1)")
      case None
      with Inr x show ?thesis
        by (cases "ar_isPrimary rq") (simp_all add: address_update_def)
    next
      case (Some y)
      with Inr x show ?thesis
        by (cases "ar_isPrimary rq") (auto simp: address_update_def)
    qed
    with Inr x show ?thesis
      unfolding put_addresses_def Let_def d1 by simp
  qed
qed

lemma addresses_wf_iff:
  "addresses_wf d \<longleftrightarrow>
     distinct (map a_id (addresses d)) \<and> set (map a_userId (addresses d)) \<subseteq> set (map u_id (users d))"
  unfolding addresses_wf_def by auto

lemma post_addresses_wf:
  assumes "addresses_wf d"
  shows "addresses_wf (fst (post_addresses aid d rq))"
proof -
  let ?rows = "if truthy (ar_isPrimary rq) then clear_primary (ar_userId rq) (addresses d)
               else addresses d"
  have ids: "map a_id ?rows = map a_id (addresses d)"
    and own: "map a_userId ?rows = map a_userId (addresses d)" by simp_all
  show ?thesis
  proof (cases "address_create (d\<lparr>addresses := ?rows\<rparr>) aid rq")
    case (Inl e)
    then have "addresses (fst (post_addresses aid d rq)) = ?rows"
      by (simp add: post_addresses_cases)
    with assms ids own show ?thesis
      by (simp add: addresses_wf_iff post_addresses_users)
  next
    case (Inr x)
    obtain d2 a where x: "x = (d2, a)" by (cases x)
    from address_create_row [OF Inr [unfolded x]]
    have new: "aid \<notin> set (map a_id ?rows)" and key: "a_id a = aid"
      and usr: "a_userId a \<in> set (map u_id (users d))" by simp_all
    from Inr x have "addresses (fst (post_addresses aid d rq)) = ?rows @ [a]"
      by (simp add: post_addresses_cases)
    with assms ids own new key usr show ?thesis
      by (simp add: addresses_wf_iff post_addresses_users)
  qed
qed

lemma put_addresses_wf:
  assumes "addresses_wf d"
  shows "addresses_wf (fst (put_addresses d pid rq))"
proof -
  let ?g = "\<lambda>x. if a_id x = pid then apply_address_update rq x else x"
  let ?rows = "if truthy (ar_isPrimary rq) then clear_primary (ar_userId rq) (addresses d)
               else addresses d"
  have ids: "map a_id ?rows = map a_id (addresses d)"
    and own: "map a_userId ?rows = map a_userId (addresses d)" by simp_all
  have gid: "map a_id (map ?g ?rows) = map a_id ?rows"
    by (simp add: o_def if_distrib [of a_id] cong: if_cong)
  have gown: "map a_userId (map ?g ?rows) = map a_userId ?rows"
    by (simp add: o_def if_distrib [of a_userId] cong: if_cong)
  show ?thesis
  proof (cases "address_update (d\<lparr>addresses := ?rows\<rparr>) pid rq")
    case (Inl e)
    then have "addresses (fst (put_addresses d pid rq)) = ?rows"
      by (simp add: put_addresses_cases)
    with assms ids own show ?thesis
      by (simp add: addresses_wf_iff put_addresses_users)
  next
    case (Inr x)
    obtain d2 a where x: "x = (d2, a)" by (cases x)
    from Inr x have "addresses (fst (put_addresses d pid rq)) = map ?g ?rows"
      by (simp add: put_addresses_cases)
    with assms ids own gid gown show ?thesis
      by (simp add: addresses_wf_iff put_addresses_users)
  qed
qed

lemma register_wf:
  assumes "addresses_wf d"
  shows "addresses_wf (fst (register uid aid sid d rq))"
proof (cases "status (snd (register uid aid sid d rq)) = 201")
  case False
  with register_cases [of uid aid sid d rq] assms show ?thesis by auto
next
  case True
  from register_cases [of uid aid sid d rq] True obtain ud d' u sh where
    uc: "user_create d uid aid sid ud (addressData rq) (shopData rq) = Inr (d', u, sh)"
    and d': "fst (register uid aid sid d rq) = d'" by auto
  from user_create_Inr [OF uc] obtain adr where
    rows: "addresses d' = addresses d @ [adr]"
    and adr: "a_id adr = aid" "a_userId adr = uid"
    and us: "users d' = users d @ [u]" "u_id u = uid" by blast
  from uc have "aid \<notin> set (map a_id (addresses d))"
    by (cases "addressData rq"; cases "aid \<in> set (map a_id (addresses d))")
       (simp_all add: user_create_def)
  with assms rows adr us d' show ?thesis
    by (auto simp: addresses_wf_iff)
qed

lemmas address_example_defs =
  db1_def user1_def user2_def address1_def address_body_def register_body_def

lemmas address_handler_defs =
  post_addresses_def put_addresses_def address_create_def address_update_def
  apply_address_update_def register_def user_create_def or_default_def Let_def
  primary_flags_def

subsection \<open>The invariant\<close>

text \<open>
  C10. In a database where nobody has two primary addresses (and address keys are
  distinct and every address belongs to a user), the address-writing routes keep it
  so. \<^verbatim>\<open>POST /addresses\<close> always does; with a truthy \<^verbatim>\<open>isPrimary\<close> and a 201, the
  address it created is afterwards the only primary address of its user, the others
  having been cleared first; with a falsy one the primary addresses of every user
  are what they were. \<^verbatim>\<open>PUT /addresses/:id\<close> does when \<^verbatim>\<open>isPrimary: true\<close> comes with the
  \<^verbatim>\<open>userId\<close> of the address's owner: the updated address is then the only primary
  address of that user; with a falsy \<^verbatim>\<open>isPrimary\<close> no address becomes primary.
  \<^verbatim>\<open>POST /auth/register\<close> always does, and on a 201 the new user has exactly one
  address, which is primary.
\<close>

theorem primary_address_invariant:
  assumes inv: "one_primary (addresses d)" and wf: "addresses_wf d"
  shows
    "one_primary (addresses (fst (post_addresses aid d prq))) \<and>
     ((ar_isPrimary urq = JBool True \<longrightarrow>
         (\<forall>a \<in> set (addresses d). a_id a = pid \<longrightarrow> ar_userId urq = Some (a_userId a))) \<longrightarrow>
        one_primary (addresses (fst (put_addresses d pid urq)))) \<and>
     one_primary (addresses (fst (register uid raid sid d rrq))) \<and>
     (truthy (ar_isPrimary prq) \<and> status (snd (post_addresses aid d prq)) = 201 \<longrightarrow>
        (\<exists>u a. ar_userId prq = Some u \<and> a_id a = aid \<and> a_isPrimary a \<and>
           primary_of u (addresses (fst (post_addresses aid d prq))) = [a])) \<and>
     (\<not> truthy (ar_isPrimary prq) \<longrightarrow>
        (\<forall>u. primary_of u (addresses (fst (post_addresses aid d prq))) =
              primary_of u (addresses d))) \<and>
     (ar_isPrimary urq = JBool True \<and>
      (\<forall>a \<in> set (addresses d). a_id a = pid \<longrightarrow> ar_userId urq = Some (a_userId a)) \<and>
      status (snd (put_addresses d pid urq)) = 200 \<longrightarrow>
        (\<exists>u. ar_userId urq = Some u \<and>
           map a_id (primary_of u (addresses (fst (put_addresses d pid urq)))) = [pid])) \<and>
     (\<not> truthy (ar_isPrimary urq) \<longrightarrow>
        set (map a_id (filter a_isPrimary (addresses (fst (put_addresses d pid urq))))) \<subseteq>
        set (map a_id (filter a_isPrimary (addresses d)))) \<and>
     (status (snd (register uid raid sid d rrq)) = 201 \<longrightarrow>
        (\<exists>a. filter (\<lambda>x. a_userId x = uid) (addresses (fst (register uid raid sid d rrq))) = [a] \<and>
           a_id a = raid \<and> a_isPrimary a))"
proof -
  from wf have pk: "distinct (map a_id (addresses d))" by (simp add: addresses_wf_def)
  note post_addresses_inv [OF inv, of aid prq]
  moreover note put_addresses_inv [OF inv pk, of urq pid]
  moreover note register_inv [OF inv wf, of uid raid sid rrq]
  moreover note post_addresses_marks_one [of prq aid d]
  moreover note post_addresses_marks_none [of prq _ aid d]
  moreover note put_addresses_marks_one [OF inv pk, of urq pid]
  moreover note put_addresses_marks_none [of urq d pid]
  moreover note register_one_address [OF wf, of uid raid sid rrq]
  ultimately show ?thesis by blast
qed

theorem primary_address_invariant_witness:
  "one_primary (addresses db1) \<and> addresses_wf db1 \<and>
   primary_flags db1 =
     [(''a1'', ''u1'', True), (''a2'', ''u1'', False), (''a3'', ''u2'', True)] \<and>
   primary_flags (fst (post_addresses ''a4'' db1 (address_body ''u1'' (JBool True)))) =
     [(''a1'', ''u1'', False), (''a2'', ''u1'', False), (''a3'', ''u2'', True),
      (''a4'', ''u1'', True)] \<and>
   one_primary (addresses (fst (post_addresses ''a4'' db1 (address_body ''u1'' (JBool True))))) \<and>
   primary_flags (fst (put_addresses db1 ''a2'' (address_body ''u1'' (JBool True)))) =
     [(''a1'', ''u1'', False), (''a2'', ''u1'', True), (''a3'', ''u2'', True)] \<and>
   one_primary (addresses (fst (put_addresses db1 ''a2'' (address_body ''u1'' (JBool True))))) \<and>
   status (snd (register ''u3'' ''a5'' ''s1'' db1 register_body)) = 201 \<and>
   primary_flags (fst (register ''u3'' ''a5'' ''s1'' db1 register_body)) =
     [(''a1'', ''u1'', True), (''a2'', ''u1'', False), (''a3'', ''u2'', True),
      (''a5'', ''u3'', True)] \<and>
   one_primary (addresses (fst (register ''u3'' ''a5'' ''s1'' db1 register_body)))"
proof -
  have inv: "one_primary (addresses db1)"
    by (simp add: one_primary_def primary_of_def address_example_defs)
  have wf: "addresses_wf db1"
    by (simp add: addresses_wf_def address_example_defs)
  have owner: "ar_isPrimary (address_body ''u1'' (JBool True)) = JBool True \<longrightarrow>
     (\<forall>a \<in> set (addresses db1). a_id a = ''a2'' \<longrightarrow>
        ar_userId (address_body ''u1'' (JBool True)) = Some (a_userId a))"
    by (simp add: address_example_defs)
  note th = primary_address_invariant [OF inv wf,
      where aid = "''a4''" and prq = "address_body ''u1'' (JBool True)"
        and pid = "''a2''" and urq = "address_body ''u1'' (JBool True)"
        and uid = "''u3''" and raid = "''a5''" and sid = "''s1''" and rrq = register_body]
  from th have a: "one_primary (addresses (fst (post_addresses ''a4'' db1
      (address_body ''u1'' (JBool True)))))" by blast
  from th owner have b: "one_primary (addresses (fst (put_addresses db1 ''a2''
      (address_body ''u1'' (JBool True)))))" by blast
  from th have c: "one_primary (addresses (fst (register ''u3'' ''a5'' ''s1'' db1 register_body)))"
    by blast
  have e0: "primary_flags db1 =
     [(''a1'', ''u1'', True), (''a2'', ''u1'', False), (''a3'', ''u2'', True)]"
    by (simp add: primary_flags_def address_example_defs)
  have e1: "primary_flags (fst (post_addresses ''a4'' db1 (address_body ''u1'' (JBool True)))) =
     [(''a1'', ''u1'', False), (''a2'', ''u1'', False), (''a3'', ''u2'', True),
      (''a4'', ''u1'', True)]"
    by (simp add: address_handler_defs address_example_defs clear_primary_def)
  have e2: "primary_flags (fst (put_addresses db1 ''a2'' (address_body ''u1'' (JBool True)))) =
     [(''a1'', ''u1'', False), (''a2'', ''u1'', True), (''a3'', ''u2'', True)]"
    by (simp add: address_handler_defs address_example_defs clear_primary_def)
  have e3: "status (snd (register ''u3'' ''a5'' ''s1'' db1 register_body)) = 201"
    by (simp add: address_handler_defs address_example_defs)
  have e4: "primary_flags (fst (register ''u3'' ''a5'' ''s1'' db1 register_body)) =
     [(''a1'', ''u1'', True), (''a2'', ''u1'', False), (''a3'', ''u2'', True),
      (''a5'', ''u3'', True)]"
    by (simp add: address_handler_defs address_example_defs)
  from inv wf a b c e0 e1 e2 e3 e4 show ?thesis by blast
qed

text \<open>
  The owner's \<^verbatim>\<open>userId\<close> is needed: \<^verbatim>\<open>PUT /addresses/a2\<close> with \<^verbatim>\<open>isPrimary: true\<close> and
  the \<^verbatim>\<open>userId\<close> of another user clears that other user's addresses and leaves the
  owner of \<open>a2\<close> with two primary addresses.
\<close>

lemma put_addresses_other_user:
  "one_primary (addresses db1) \<and>
   primary_flags (fst (put_addresses db1 ''a2'' (address_body ''u2'' (JBool True)))) =
     [(''a1'', ''u1'', True), (''a2'', ''u1'', True), (''a3'', ''u2'', False)] \<and>
   \<not> one_primary (addresses (fst (put_addresses db1 ''a2'' (address_body ''u2'' (JBool True)))))"
  by (simp add: one_primary_def primary_of_def address_handler_defs address_example_defs
      clear_primary_def)

end
